theory Spec2Isabelle
  imports Complex_Main "HOL-Library.Multiset" "HOL-Library.Product_Lexorder" "HOL-Library.Log_Nat"
begin

chapter \<open>The program\<close>

section \<open>JavaScript values\<close>

text \<open>
  A JavaScript number is a finite value, \<open>NaN\<close> or one of the two infinities. Finite
  values are carried as reals; where the binary64 rounding of an operation decides what
  the program prints it is written out (see \<open>round_binary64\<close> below), elsewhere the
  operation is the exact one and the text says so. Negative zero is not distinguished
  from zero: the program prints both the same way.

  A value that may be missing is an option. \<open>None\<close> is \<open>undefined\<close>, the value of a
  property that an object does not have; where the program takes \<open>null\<close> as well it
  treats the two alike (\<open>== null\<close>, \<open>??\<close>), and \<open>None\<close> is either. Arithmetic tells
  them apart (\<open>undefined\<close> is \<open>NaN\<close> as a number, \<open>null\<close> is 0), and the only optional
  values the program computes with are coordinates: those are numbers or absent in the
  response of the query service, never \<open>null\<close>, so for a coordinate \<open>None\<close> is
  \<open>undefined\<close> alone and a response with a \<open>null\<close> coordinate is outside this model.
\<close>

datatype jsnum = Num real | NaN | PosInf | NegInf

type_synonym jsval = "jsnum option"

datatype js_error =
    Error string    \<comment> \<open>\<open>throw new Error(msg)\<close>\<close>
  | TypeError       \<comment> \<open>reading a property of \<open>undefined\<close>\<close>
  | SyntaxError     \<comment> \<open>\<open>res.json()\<close> on a body that is not JSON\<close>
  | NetworkError    \<comment> \<open>\<open>fetch\<close> rejects: no response at all\<close>

text \<open>An object with a \<open>lat\<close> and a \<open>lon\<close> property; elements and stations extend it.\<close>

record 'a latlon =
  lat :: 'a
  lon :: 'a


section \<open>The station query: \<open>fetchStations\<close>\<close>

text \<open>
  The response of the query service:
  \<open>{ elements: [ { type, id, lat?, lon?, center?: {lat, lon}, tags?: {...} } ] }\<close>.
\<close>

record tags =
  name :: "string option"
  brand :: "string option"
  addr_street :: "string option"
  addr_housenumber :: "string option"
  addr_city :: "string option"

record element = "jsval latlon" +
  el_type :: string
  el_id :: int
  center :: "jsval latlon option"
  tags :: "tags option"

record overpass_data =
  elements :: "element list option"

record response =
  ok :: bool
  json :: "overpass_data option"    \<comment> \<open>\<open>None\<close>: the body does not parse, \<open>res.json()\<close> rejects\<close>

datatype fetch_outcome = Rejected | Responded response

text \<open>
  A station as \<open>fetchStations\<close> builds it has no \<open>distanceMeters\<close> property (\<open>None\<close>);
  the load effect adds it.
\<close>

record station = "jsval latlon" +
  st_id :: int
  st_name :: "string option"
  st_brand :: "string option"
  address :: string
  distanceMeters :: jsval

definition no_tags :: tags where
  "no_tags = \<lparr>name = None, brand = None, addr_street = None,
              addr_housenumber = None, addr_city = None\<rparr>"

text \<open>\<open>.filter(Boolean)\<close> on strings that may be undefined: the empty string is falsy too.\<close>

fun filter_Boolean :: "string option list \<Rightarrow> string list" where
  "filter_Boolean [] = []"
| "filter_Boolean (None # xs) = filter_Boolean xs"
| "filter_Boolean (Some s # xs) = (if s = [] then filter_Boolean xs else s # filter_Boolean xs)"

fun join :: "string \<Rightarrow> string list \<Rightarrow> string" where
  "join sep [] = []"
| "join sep [s] = s"
| "join sep (s # t # ss) = s @ sep @ join sep (t # ss)"

text \<open>
  The callback of \<open>elements.map\<close>. For a node the centre is a fresh object holding the
  element's own \<open>lat\<close> and \<open>lon\<close> (whatever they are); for any other type it is
  \<open>el.center\<close>, and reading \<open>center.lat\<close> of an absent centre throws.
\<close>

definition element_to_station :: "element \<Rightarrow> js_error + station" where
  "element_to_station el =
     (let c = (if el_type el = ''node'' then Some \<lparr>lat = lat el, lon = lon el\<rparr> else center el);
          t = (case tags el of None \<Rightarrow> no_tags | Some t \<Rightarrow> t)
      in case c of
           None \<Rightarrow> Inl TypeError
         | Some c \<Rightarrow>
             Inr \<lparr>lat = lat c, lon = lon c,
                  st_id = el_id el, st_name = name t, st_brand = brand t,
                  address = join '' '' (filter_Boolean [addr_street t, addr_housenumber t, addr_city t]),
                  distanceMeters = None\<rparr>)"

text \<open>\<open>Array.prototype.map\<close> with a callback that may throw: the first throw ends the call.\<close>

fun array_map :: "('a \<Rightarrow> js_error + 'b) \<Rightarrow> 'a list \<Rightarrow> js_error + 'b list" where
  "array_map f [] = Inr []"
| "array_map f (x # xs) =
     (case f x of
        Inl e \<Rightarrow> Inl e
      | Inr y \<Rightarrow> (case array_map f xs of Inl e \<Rightarrow> Inl e | Inr ys \<Rightarrow> Inr (y # ys)))"

text \<open>
  \<open>fetchStations\<close>, as a function of what the network delivers for its one request
  (the text of the query is not modelled). A body that parses is taken to be an object,
  as the service's interface has it.
\<close>

definition fetchStations :: "fetch_outcome \<Rightarrow> js_error + station list" where
  "fetchStations outcome =
     (case outcome of
        Rejected \<Rightarrow> Inl NetworkError
      | Responded res \<Rightarrow>
          if \<not> ok res then Inl (Error ''Failed to fetch stations'')
          else (case json res of
                  None \<Rightarrow> Inl SyntaxError
                | Some data \<Rightarrow>
                    array_map element_to_station
                      (case elements data of None \<Rightarrow> [] | Some els \<Rightarrow> els)))"

text \<open>An element has a coordinate to read when it is a node or carries a centre.\<close>

definition has_center :: "element \<Rightarrow> bool" where
  "has_center el \<longleftrightarrow> el_type el = ''node'' \<or> center el \<noteq> None"

text \<open>A successful response with the given elements.\<close>

definition ok_response :: "element list option \<Rightarrow> fetch_outcome" where
  "ok_response els = Responded \<lparr>ok = True, json = Some \<lparr>elements = els\<rparr>\<rparr>"

text \<open>Three elements for the examples: a complete node, a way without centre, a bare node.\<close>

definition node_7 :: element where
  "node_7 = \<lparr>lat = Some (Num 12), lon = Some (Num 77), el_type = ''node'', el_id = 7,
             center = None, tags = None\<rparr>"

definition way_8 :: element where
  "way_8 = \<lparr>lat = None, lon = None, el_type = ''way'', el_id = 8,
            center = None, tags = None\<rparr>"

definition node_9 :: element where
  "node_9 = \<lparr>lat = None, lon = None, el_type = ''node'', el_id = 9,
             center = None, tags = None\<rparr>"

definition way_10 :: element where
  "way_10 = \<lparr>lat = None, lon = None, el_type = ''way'', el_id = 10,
             center = Some \<lparr>lat = Some (Num 13), lon = Some (Num 78)\<rparr>,
             tags = Some (no_tags\<lparr>name := Some ''Shell'', addr_street := Some ''MG Road'',
                                   addr_housenumber := Some [], addr_city := Some ''Bengaluru''\<rparr>)\<rparr>"

definition elements_list :: "overpass_data \<Rightarrow> element list" where
  "elements_list data = (case elements data of None \<Rightarrow> [] | Some els \<Rightarrow> els)"


section \<open>Ranking: \<open>sortStationsByDistance\<close>\<close>

fun isNaN :: "jsnum \<Rightarrow> bool" where
  "isNaN NaN = True"
| "isNaN _ = False"

text \<open>\<open>v ?? d\<close>: the default replaces \<open>null\<close> and \<open>undefined\<close> only.\<close>

fun nullish :: "jsval \<Rightarrow> jsnum \<Rightarrow> jsnum" where
  "nullish None d = d"
| "nullish (Some v) d = v"

text \<open>
  \<open>a - b\<close>. On finite operands the binary64 difference is the rounded exact difference:
  it is zero exactly when the operands are equal and has the sign of the exact difference
  otherwise (an overflow keeps the sign). The comparator's caller reads only that sign, so
  the exact difference stands for it here.
\<close>

fun js_sub :: "jsnum \<Rightarrow> jsnum \<Rightarrow> jsnum" where
  "js_sub NaN _ = NaN"
| "js_sub _ NaN = NaN"
| "js_sub (Num a) (Num b) = Num (a - b)"
| "js_sub (Num a) PosInf = NegInf"
| "js_sub (Num a) NegInf = PosInf"
| "js_sub PosInf PosInf = NaN"
| "js_sub PosInf _ = PosInf"
| "js_sub NegInf NegInf = NaN"
| "js_sub NegInf _ = NegInf"

text \<open>\<open>a < b\<close> and \<open>a <= b\<close> on numbers: false whenever an operand is \<open>NaN\<close>.\<close>

fun js_lt :: "jsnum \<Rightarrow> jsnum \<Rightarrow> bool" where
  "js_lt NaN _ = False"
| "js_lt _ NaN = False"
| "js_lt (Num a) (Num b) = (a < b)"
| "js_lt NegInf NegInf = False"
| "js_lt NegInf _ = True"
| "js_lt PosInf _ = False"
| "js_lt (Num a) PosInf = True"
| "js_lt (Num a) NegInf = False"

definition js_le :: "jsnum \<Rightarrow> jsnum \<Rightarrow> bool" where
  "js_le a b \<longleftrightarrow> \<not> isNaN a \<and> \<not> isNaN b \<and> (js_lt a b \<or> a = b)"

text \<open>
  \<open>Array.prototype.sort(comparefn)\<close> is a builtin. The language fixes two things about
  it: the sort is stable, and the result is ordered whenever the comparator is consistent
  on the elements. The order of the result under an inconsistent comparator is left to the
  implementation. The model is the stable insertion sort: an element moves past exactly
  the elements that the comparator puts strictly before it. As in the builtin, a
  comparator result of \<open>NaN\<close> counts as \<open>+0\<close>, and only \<open>v > 0\<close> is read.
\<close>

definition sort_compare :: "('a \<Rightarrow> 'a \<Rightarrow> jsnum) \<Rightarrow> 'a \<Rightarrow> 'a \<Rightarrow> jsnum" where
  "sort_compare comparefn x y = (let v = comparefn x y in if isNaN v then Num 0 else v)"

fun insert_sorted :: "('a \<Rightarrow> 'a \<Rightarrow> jsnum) \<Rightarrow> 'a \<Rightarrow> 'a list \<Rightarrow> 'a list" where
  "insert_sorted comparefn x [] = [x]"
| "insert_sorted comparefn x (y # ys) =
     (if js_lt (Num 0) (sort_compare comparefn x y)
      then y # insert_sorted comparefn x ys
      else x # y # ys)"

definition array_sort :: "('a \<Rightarrow> 'a \<Rightarrow> jsnum) \<Rightarrow> 'a list \<Rightarrow> 'a list" where
  "array_sort comparefn xs = foldr (insert_sorted comparefn) xs []"

text \<open>The comparator \<open>(a, b) => (a.distanceMeters ?? 0) - (b.distanceMeters ?? 0)\<close>.\<close>

definition by_distance :: "station \<Rightarrow> station \<Rightarrow> jsnum" where
  "by_distance a b = js_sub (nullish (distanceMeters a) (Num 0)) (nullish (distanceMeters b) (Num 0))"

text \<open>
  \<open>sortStationsByDistance\<close> on the contents of the array: the copy \<open>[...stations]\<close> has
  the elements of \<open>stations\<close> in the same order, and the sort runs on the copy.
\<close>

definition sortStationsByDistance :: "station list \<Rightarrow> station list" where
  "sortStationsByDistance stations = array_sort by_distance stations"

text \<open>
  A station carries a numeric distance when its \<open>distanceMeters\<close> is present and is a
  number: a finite value or an infinity, not \<open>NaN\<close>.
\<close>

definition numeric_distance :: "station \<Rightarrow> bool" where
  "numeric_distance s \<longleftrightarrow> (\<exists>d. distanceMeters s = Some d \<and> \<not> isNaN d)"

text \<open>
  The place of a number in the order of the numbers, as a pair in lexicographic order;
  \<open>NaN\<close>, which is in no order with anything, is put last.
\<close>

fun number_rank :: "jsnum \<Rightarrow> int \<times> real" where
  "number_rank NegInf = (- 1, 0)"
| "number_rank (Num x) = (0, x)"
| "number_rank PosInf = (1, 0)"
| "number_rank NaN = (2, 0)"

text \<open>
  The same function on a store of arrays, for what it does to its argument. A reference is
  an index into the store; \<open>[...stations]\<close> allocates a new array holding the elements of
  the old one, \<open>.sort\<close> overwrites the array it is called on and returns its reference.
  A reference outside the store does not occur in a running program (\<open>None\<close>).
\<close>

type_synonym store = "station list list"

definition spread_copy :: "store \<Rightarrow> nat \<Rightarrow> (nat \<times> store) option" where
  "spread_copy st a = (if a < length st then Some (length st, st @ [st ! a]) else None)"

definition sort_in_place :: "(station \<Rightarrow> station \<Rightarrow> jsnum) \<Rightarrow> store \<Rightarrow> nat \<Rightarrow> (nat \<times> store) option" where
  "sort_in_place comparefn st a =
     (if a < length st then Some (a, st[a := array_sort comparefn (st ! a)]) else None)"

definition sortStationsByDistance_store :: "store \<Rightarrow> nat \<Rightarrow> (nat \<times> store) option" where
  "sortStationsByDistance_store st stations =
     (case spread_copy st stations of
        None \<Rightarrow> None
      | Some (copy, st') \<Rightarrow> sort_in_place by_distance st' copy)"

text \<open>A station with the given id and distance, for the examples.\<close>

definition station_at :: "int \<Rightarrow> jsval \<Rightarrow> station" where
  "station_at i d = \<lparr>lat = Some (Num 0), lon = Some (Num 0), st_id = i, st_name = None,
                     st_brand = None, address = [], distanceMeters = d\<rparr>"


section \<open>Binary64 arithmetic\<close>

text \<open>
  The binary64 rounding of a real: to the nearest number with a 53-bit significand, to
  the even one of two that are equally near; below \<open>2\<^sup>-\<^sup>1\<^sup>0\<^sup>2\<^sup>2\<close> the spacing stays that of the
  smallest normal numbers, and a result of \<open>2\<^sup>1\<^sup>0\<^sup>2\<^sup>4\<close> or more is an infinity.
\<close>

definition round_half_even :: "real \<Rightarrow> int" where
  "round_half_even y =
     (let f = \<lfloor>y\<rfloor>; d = y - of_int f
      in if d < 1 / 2 then f else if 1 / 2 < d then f + 1 else if even f then f else f + 1)"

text \<open>The exponent \<open>e\<close> with \<open>2\<^sup>e \<le> x < 2\<^sup>e\<^sup>+\<^sup>1\<close>, for \<open>x > 0\<close>.\<close>

definition binary_exponent :: "real \<Rightarrow> int" where
  "binary_exponent x = (if 1 \<le> x then bitlen \<lfloor>x\<rfloor> - 1 else - bitlen (\<lceil>1 / x\<rceil> - 1))"

definition round_binary64 :: "real \<Rightarrow> jsnum" where
  "round_binary64 x =
     (if x = 0 then Num 0
      else let e = max (binary_exponent \<bar>x\<bar>) (- 1022);
               q = 2 powi (e - 52);
               m = of_int (round_half_even (\<bar>x\<bar> / q)) * q
           in if 2 ^ 1024 \<le> m then (if 0 < x then PosInf else NegInf)
              else Num (sgn x * m))"

text \<open>\<open>v / d\<close> for a finite constant \<open>d > 0\<close>.\<close>

fun divide_by :: "real \<Rightarrow> jsnum \<Rightarrow> jsnum" where
  "divide_by d (Num x) = round_binary64 (x / d)"
| "divide_by d v = v"

text \<open>
  Sum, difference and product: the binary64 rounding of the exact result on finite
  operands, and the rules of the infinities and \<open>NaN\<close>.
\<close>

fun fl_neg :: "jsnum \<Rightarrow> jsnum" where
  "fl_neg (Num x) = Num (- x)"
| "fl_neg PosInf = NegInf"
| "fl_neg NegInf = PosInf"
| "fl_neg NaN = NaN"

fun fl_add :: "jsnum \<Rightarrow> jsnum \<Rightarrow> jsnum" where
  "fl_add NaN _ = NaN"
| "fl_add _ NaN = NaN"
| "fl_add (Num a) (Num b) = round_binary64 (a + b)"
| "fl_add PosInf NegInf = NaN"
| "fl_add NegInf PosInf = NaN"
| "fl_add PosInf _ = PosInf"
| "fl_add NegInf _ = NegInf"
| "fl_add (Num a) v = v"

definition fl_sub :: "jsnum \<Rightarrow> jsnum \<Rightarrow> jsnum" where
  "fl_sub a b = fl_add a (fl_neg b)"

fun fl_mul :: "jsnum \<Rightarrow> jsnum \<Rightarrow> jsnum" where
  "fl_mul NaN _ = NaN"
| "fl_mul _ NaN = NaN"
| "fl_mul (Num a) (Num b) = round_binary64 (a * b)"
| "fl_mul (Num a) v = (if a = 0 then NaN else if 0 < a then v else fl_neg v)"
| "fl_mul v (Num b) = (if b = 0 then NaN else if 0 < b then v else fl_neg v)"
| "fl_mul PosInf v = v"
| "fl_mul NegInf v = fl_neg v"


section \<open>Geodesy: \<open>haversineDistanceMeters\<close>\<close>

text \<open>
  The function is given twice. First the formula in exact arithmetic, on real numbers:
  what the code evaluates when no operation rounds. Then, under the names ending in
  \<open>binary64\<close>, the formula as the machine evaluates it, every arithmetic operation
  rounded and the functions of \<open>Math\<close> those of the platform. The two differ by the
  rounding, which is small where the second square root has room and decides the result
  where it has none.
\<close>

definition toRadians :: "real \<Rightarrow> real" where
  "toRadians degrees = (degrees * pi) / 180"

text \<open>\<open>Math.atan2(y, x)\<close>: the angle of the point \<open>(x, y)\<close>, in \<open>(-\<pi>, \<pi>]\<close>.\<close>

definition atan2 :: "real \<Rightarrow> real \<Rightarrow> real" where
  "atan2 y x =
     (if 0 < x then arctan (y / x)
      else if x < 0 then (if 0 \<le> y then arctan (y / x) + pi else arctan (y / x) - pi)
      else if 0 < y then pi / 2
      else if y < 0 then - (pi / 2)
      else 0)"

text \<open>The quantity \<open>a\<close> of the source, the haversine of the central angle.\<close>

definition haversine_a :: "real \<Rightarrow> real \<Rightarrow> real \<Rightarrow> real \<Rightarrow> real" where
  "haversine_a lat1 lon1 lat2 lon2 =
     (let dLat = toRadians (lat2 - lat1);
          dLon = toRadians (lon2 - lon1)
      in sin (dLat / 2) * sin (dLat / 2) +
         cos (toRadians lat1) * cos (toRadians lat2) * sin (dLon / 2) * sin (dLon / 2))"

definition haversineDistanceMeters :: "real \<Rightarrow> real \<Rightarrow> real \<Rightarrow> real \<Rightarrow> real" where
  "haversineDistanceMeters lat1 lon1 lat2 lon2 =
     (let R = 6371000;
          a = haversine_a lat1 lon1 lat2 lon2;
          c = 2 * atan2 (sqrt a) (sqrt (1 - a))
      in R * c)"

text \<open>
  The same formula as the machine evaluates it. \<open>Math.sin\<close>, \<open>Math.cos\<close>, \<open>Math.sqrt\<close> and
  \<open>Math.atan2\<close> belong to the platform: the language fixes their results at zero, at the
  infinities, at \<open>NaN\<close> and on negative radicands, and asks for an approximation
  elsewhere. The platform's values on the other finite arguments are a parameter.
\<close>

record math =
  m_sin :: "real \<Rightarrow> real"
  m_cos :: "real \<Rightarrow> real"
  m_sqrt :: "real \<Rightarrow> real"
  m_atan2 :: "real \<Rightarrow> real \<Rightarrow> real"

fun Math_sin :: "math \<Rightarrow> jsnum \<Rightarrow> jsnum" where
  "Math_sin M (Num x) = (if x = 0 then Num 0 else Num (m_sin M x))"
| "Math_sin M _ = NaN"

fun Math_cos :: "math \<Rightarrow> jsnum \<Rightarrow> jsnum" where
  "Math_cos M (Num x) = (if x = 0 then Num 1 else Num (m_cos M x))"
| "Math_cos M _ = NaN"

fun Math_sqrt :: "math \<Rightarrow> jsnum \<Rightarrow> jsnum" where
  "Math_sqrt M (Num x) = (if x < 0 then NaN else if x = 0 then Num 0 else Num (m_sqrt M x))"
| "Math_sqrt M PosInf = PosInf"
| "Math_sqrt M _ = NaN"

text \<open>
  \<open>Math.atan2(y, x)\<close>. With an infinite argument the result is a fixed multiple of \<open>\<pi>\<close>,
  as near as the platform has it; here the nearest binary64 value.
\<close>

fun Math_atan2 :: "math \<Rightarrow> jsnum \<Rightarrow> jsnum \<Rightarrow> jsnum" where
  "Math_atan2 M NaN _ = NaN"
| "Math_atan2 M _ NaN = NaN"
| "Math_atan2 M (Num y) (Num x) = (if y = 0 \<and> 0 < x then Num 0 else Num (m_atan2 M y x))"
| "Math_atan2 M (Num y) PosInf = Num 0"
| "Math_atan2 M (Num y) NegInf = (if 0 \<le> y then round_binary64 pi else round_binary64 (- pi))"
| "Math_atan2 M PosInf (Num x) = round_binary64 (pi / 2)"
| "Math_atan2 M PosInf PosInf = round_binary64 (pi / 4)"
| "Math_atan2 M PosInf NegInf = round_binary64 (3 * pi / 4)"
| "Math_atan2 M NegInf (Num x) = round_binary64 (- (pi / 2))"
| "Math_atan2 M NegInf PosInf = round_binary64 (- (pi / 4))"
| "Math_atan2 M NegInf NegInf = round_binary64 (- (3 * pi / 4))"

text \<open>\<open>Math.PI\<close>, the binary64 value nearest to \<open>\<pi>\<close>: 3.141592653589793.\<close>

definition Math_PI :: real where
  "Math_PI = 884279719003555 / 281474976710656"

definition toRadians_binary64 :: "jsnum \<Rightarrow> jsnum" where
  "toRadians_binary64 degrees = divide_by 180 (fl_mul degrees (Num Math_PI))"

definition haversine_a_binary64 ::
    "math \<Rightarrow> jsnum \<Rightarrow> jsnum \<Rightarrow> jsnum \<Rightarrow> jsnum \<Rightarrow> jsnum" where
  "haversine_a_binary64 M lat1 lon1 lat2 lon2 =
     (let dLat = toRadians_binary64 (fl_sub lat2 lat1);
          dLon = toRadians_binary64 (fl_sub lon2 lon1)
      in fl_add
           (fl_mul (Math_sin M (divide_by 2 dLat)) (Math_sin M (divide_by 2 dLat)))
           (fl_mul
             (fl_mul
               (fl_mul (Math_cos M (toRadians_binary64 lat1))
                       (Math_cos M (toRadians_binary64 lat2)))
               (Math_sin M (divide_by 2 dLon)))
             (Math_sin M (divide_by 2 dLon))))"

definition haversineDistanceMeters_binary64 ::
    "math \<Rightarrow> jsnum \<Rightarrow> jsnum \<Rightarrow> jsnum \<Rightarrow> jsnum \<Rightarrow> jsnum" where
  "haversineDistanceMeters_binary64 M lat1 lon1 lat2 lon2 =
     (let R = Num 6371000;
          a = haversine_a_binary64 M lat1 lon1 lat2 lon2;
          c = fl_mul (Num 2) (Math_atan2 M (Math_sqrt M a) (Math_sqrt M (fl_sub (Num 1) a)))
      in fl_mul R c)"

text \<open>
  The call on the values the load effect passes: a station's \<open>lat\<close> and \<open>lon\<close> may be
  undefined (\<open>None\<close>; a coordinate is never \<open>null\<close>, which would count as 0), and an
  undefined operand is \<open>NaN\<close> as a number.
\<close>

fun ToNumber :: "jsval \<Rightarrow> jsnum" where
  "ToNumber None = NaN"
| "ToNumber (Some v) = v"

definition haversineDistanceMeters_js ::
    "math \<Rightarrow> jsval \<Rightarrow> jsval \<Rightarrow> jsval \<Rightarrow> jsval \<Rightarrow> jsnum" where
  "haversineDistanceMeters_js M lat1 lon1 lat2 lon2 =
     haversineDistanceMeters_binary64 M (ToNumber lat1) (ToNumber lon1) (ToNumber lat2) (ToNumber lon2)"

text \<open>
  A platform for the examples: each of its four functions returns the binary64 number
  nearest to the exact value, which is the best a platform can do. (None of the four
  exact values is beyond the binary64 range, so the rounding always gives a number.)
\<close>

definition nearest_binary64 :: "real \<Rightarrow> real" where
  "nearest_binary64 y = (case round_binary64 y of Num v \<Rightarrow> v | _ \<Rightarrow> y)"

definition example_math :: math where
  "example_math = \<lparr>
     m_sin = (\<lambda>x. nearest_binary64 (sin x)),
     m_cos = (\<lambda>x. nearest_binary64 (cos x)),
     m_sqrt = (\<lambda>x. nearest_binary64 (sqrt x)),
     m_atan2 = (\<lambda>y x. nearest_binary64 (atan2 y x))\<rparr>"


section \<open>Geodesy: \<open>formatDistance\<close>\<close>

text \<open>Decimal digits of a natural number and of an integer, without leading zeros.\<close>

definition digit_char :: "nat \<Rightarrow> char" where
  "digit_char d = ''0123456789'' ! d"

fun show_nat :: "nat \<Rightarrow> string" where
  "show_nat n = (if n < 10 then [digit_char n] else show_nat (n div 10) @ [digit_char (n mod 10)])"

definition show_int :: "int \<Rightarrow> string" where
  "show_int i = (if i < 0 then CHR ''-'' # show_nat (nat (- i)) else show_nat (nat i))"

text \<open>
  \<open>Math.round\<close>: the nearest integer, the larger one of two that are equally near. The
  result of the builtin is exact.
\<close>

fun math_round :: "jsnum \<Rightarrow> jsnum" where
  "math_round (Num x) = Num (of_int \<lfloor>x + 1 / 2\<rfloor>)"
| "math_round v = v"

text \<open>
  The text of a number, as a template literal inserts it: the shortest decimal digits that
  identify the binary64 value, padded with zeros up to the point. For an integer of
  magnitude below \<open>2\<^sup>5\<^sup>3\<close> these are all its decimal digits, since every integer
  of that size is a binary64 value of its own. Every other finite number is written from
  the shortest-digits conversion, with zeros for the digits it drops, with fraction
  digits or with an exponent; that conversion is not modelled, it is the parameter
  \<open>other\<close>. \<open>formatDistance\<close> meets it only on magnitudes of \<open>2\<^sup>5\<^sup>3\<close> and more.
\<close>

fun number_toString :: "(real \<Rightarrow> string) \<Rightarrow> jsnum \<Rightarrow> string" where
  "number_toString other NaN = ''NaN''"
| "number_toString other PosInf = ''Infinity''"
| "number_toString other NegInf = ''-Infinity''"
| "number_toString other (Num x) =
     (if of_int \<lfloor>x\<rfloor> = x \<and> \<bar>x\<bar> < 2 ^ 53 then show_int \<lfloor>x\<rfloor> else other x)"

text \<open>
  \<open>toFixed(2)\<close>. For a finite \<open>x\<close> of magnitude below \<open>10\<^sup>2\<^sup>1\<close>: the integer \<open>n\<close> with
  \<open>n / 100\<close> nearest to \<open>\<bar>x\<bar>\<close> (the larger of two), its digits padded with zeros to at
  least three, a point before the last two, and a minus sign in front when \<open>x < 0\<close>.
  From \<open>10\<^sup>2\<^sup>1\<close> on and for a value that is not finite, the text of the number.
\<close>

definition fixed2_text :: "nat \<Rightarrow> string" where
  "fixed2_text n =
     (let m = show_nat n;
          m = (if length m \<le> 2 then replicate (3 - length m) CHR ''0'' @ m else m)
      in take (length m - 2) m @ ''.'' @ drop (length m - 2) m)"

definition toFixed2 :: "(real \<Rightarrow> string) \<Rightarrow> jsnum \<Rightarrow> string" where
  "toFixed2 other v =
     (case v of
        Num x \<Rightarrow>
          (let s = (if x < 0 then ''-'' else []);
               y = \<bar>x\<bar>
           in if 10 ^ 21 \<le> y then s @ number_toString other (Num y)
              else s @ fixed2_text (nat \<lfloor>y * 100 + 1 / 2\<rfloor>))
      | _ \<Rightarrow> number_toString other v)"

definition formatDistance :: "(real \<Rightarrow> string) \<Rightarrow> jsval \<Rightarrow> string" where
  "formatDistance other meters =
     (case meters of
        None \<Rightarrow> []
      | Some m \<Rightarrow>
          if isNaN m then []
          else if js_lt m (Num 1000) then number_toString other (math_round m) @ '' m''
          else toFixed2 other (divide_by 1000 m) @ '' km'')"


section \<open>The application: location, loading, route\<close>

text \<open>
  The component \<open>App\<close>, in the variant with manual entry; the variant without it has
  the same handlers and effects less the manual ones, and its runs are the runs below
  that have no manual event. The state is the values of the \<open>useState\<close> hooks.
  Beside them the model keeps what the component has started and not yet heard back
  from: the device-location requests and the station fetches in flight, each under a
  number that only the model uses to tell them apart, and the alerts shown. Map
  handling, the theme and the first-fix animation are presentation and left out.
\<close>

record app =
  userLocation :: "jsnum latlon option"
  stations :: "station list"
  loading :: bool
  error :: "string option"
  selectedStationId :: "int option"
  routeCoords :: "(jsval \<times> jsval) list option"
  geoError :: "string option"
  isLocating :: bool
  showManualLocation :: bool
  manualLocation :: "string latlon"
  geoRequests :: "nat list"
  fetchRequests :: "(nat \<times> jsnum latlon) list"
  nextRequest :: nat
  alerts :: "string list"

text \<open>
  What the component reads from its platform: whether \<open>navigator\<close> has a \<open>geolocation\<close>,
  the builtin \<open>parseFloat\<close>, which turns the text of an input field into a number or
  \<open>NaN\<close>, and the functions of \<open>Math\<close>.
\<close>

record env =
  hasGeolocation :: bool
  parseFloat :: "string \<Rightarrow> jsnum"
  Math :: math

text \<open>
  A state setter that is given a new object or array makes the effects that depend on
  that state run after the handler. Every call of \<open>setUserLocation\<close> and \<open>setStations\<close> in
  the component passes a new one, so a handler is modelled as returning the new state
  together with the dependencies it has set.
\<close>

datatype dep = UserLocation | Stations

definition getCurrentLocation :: "env \<Rightarrow> app \<Rightarrow> app" where
  "getCurrentLocation env s =
     (if \<not> hasGeolocation env
      then s\<lparr>geoError := Some ''Geolocation is not supported by your browser.'', loading := False\<rparr>
      else s\<lparr>isLocating := True, geoError := None,
             geoRequests := geoRequests s @ [nextRequest s],
             nextRequest := Suc (nextRequest s)\<rparr>)"

text \<open>The two callbacks handed to \<open>getCurrentPosition\<close>.\<close>

definition onPosition :: "jsnum \<Rightarrow> jsnum \<Rightarrow> app \<Rightarrow> app" where
  "onPosition latitude longitude s =
     s\<lparr>userLocation := Some \<lparr>lat = latitude, lon = longitude\<rparr>,
       geoError := None, isLocating := False\<rparr>"

definition geoErrorMessage :: "int \<Rightarrow> string" where
  "geoErrorMessage code =
     (if code = 1 then ''Location access denied. Please allow location permission and try again.''
      else if code = 2 then ''Location unavailable. Please check your GPS/network connection.''
      else if code = 3 then ''Location request timed out. Please try again.''
      else ''Unable to retrieve your location.'')"

definition onPositionError :: "int \<Rightarrow> app \<Rightarrow> app" where
  "onPositionError code s =
     s\<lparr>geoError := Some (geoErrorMessage code), loading := False, isLocating := False\<rparr>"

text \<open>\<open>setManualLocationAndFetch\<close>: the second component says whether it set the location.\<close>

definition setManualLocationAndFetch :: "env \<Rightarrow> app \<Rightarrow> app \<times> bool" where
  "setManualLocationAndFetch env s =
     (let lat = parseFloat env (lat (manualLocation s));
          lon = parseFloat env (lon (manualLocation s))
      in if isNaN lat \<or> isNaN lon \<or> js_lt lat (Num (- 90)) \<or> js_lt (Num 90) lat \<or>
            js_lt lon (Num (- 180)) \<or> js_lt (Num 180) lon
         then (s\<lparr>alerts := alerts s @
                    [''Please enter valid coordinates (Lat: -90 to 90, Lon: -180 to 180)'']\<rparr>, False)
         else (s\<lparr>userLocation := Some \<lparr>lat = lat, lon = lon\<rparr>,
                 showManualLocation := False, geoError := None\<rparr>, True))"

text \<open>
  The effect on \<open>[userLocation]\<close>: \<open>load\<close> up to its \<open>await\<close>. The fetch it starts keeps the
  location of the render it was started in.
\<close>

definition load_start :: "app \<Rightarrow> app" where
  "load_start s =
     (case userLocation s of
        None \<Rightarrow> s
      | Some u \<Rightarrow> s\<lparr>loading := True,
                     fetchRequests := fetchRequests s @ [(nextRequest s, u)],
                     nextRequest := Suc (nextRequest s)\<rparr>)"

definition withDistance :: "math \<Rightarrow> jsnum latlon \<Rightarrow> station \<Rightarrow> station" where
  "withDistance M u s =
     s\<lparr>distanceMeters :=
         Some (haversineDistanceMeters_js M (Some (lat u)) (Some (lon u)) (lat s) (lon s))\<rparr>"

text \<open>
  \<open>load\<close> after its \<open>await\<close>, for the fetch started at location \<open>u\<close>: the \<open>try\<close> body, the
  \<open>catch\<close> and the \<open>finally\<close>. The second component says whether it set the stations.
\<close>

definition load_finish :: "env \<Rightarrow> jsnum latlon \<Rightarrow> fetch_outcome \<Rightarrow> app \<Rightarrow> app \<times> bool" where
  "load_finish env u outcome s =
     (case fetchStations outcome of
        Inr rawStations \<Rightarrow>
          (s\<lparr>stations := sortStationsByDistance (map (withDistance (Math env) u) rawStations),
             error := None, loading := False\<rparr>, True)
      | Inl e \<Rightarrow>
          (s\<lparr>error := Some ''Failed to load nearby petrol stations. Please try again later.'',
             loading := False\<rparr>, False))"

text \<open>The effect on \<open>[stations, userLocation]\<close>.\<close>

definition route_effect :: "app \<Rightarrow> app" where
  "route_effect s =
     (case userLocation s of
        None \<Rightarrow> s\<lparr>routeCoords := None\<rparr>
      | Some u \<Rightarrow>
          (case stations s of
             [] \<Rightarrow> s\<lparr>routeCoords := None\<rparr>
           | nearest # _ \<Rightarrow>
               s\<lparr>routeCoords := Some [(Some (lat u), Some (lon u)), (lat nearest, lon nearest)]\<rparr>))"

text \<open>The effects run in the order of their declaration, each if one of its dependencies was set.\<close>

definition run_effects :: "dep set \<Rightarrow> app \<Rightarrow> app" where
  "run_effects deps s =
     (let s1 = (if UserLocation \<in> deps then load_start s else s)
      in if UserLocation \<in> deps \<or> Stations \<in> deps then route_effect s1 else s1)"

text \<open>
  What can happen to the mounted component: a click or an input of the user, or the
  completion of something in flight.
\<close>

datatype event =
    ClickLocate                      \<comment> \<open>the floating \<open>Locate me\<close> button\<close>
  | ClickTryAgain
  | ClickEnterManually
  | ChangeLat string
  | ChangeLon string
  | ClickFindStations
  | ClickCancel
  | SelectStation int
  | GeoSuccess nat jsnum jsnum       \<comment> \<open>request, latitude, longitude\<close>
  | GeoFailure nat int               \<comment> \<open>request, error code\<close>
  | FetchSettled nat fetch_outcome

fun handle :: "env \<Rightarrow> app \<Rightarrow> event \<Rightarrow> app \<times> dep set" where
  "handle env s ClickLocate = (getCurrentLocation env s, {})"
| "handle env s ClickTryAgain = (getCurrentLocation env s, {})"
| "handle env s ClickEnterManually = (s\<lparr>showManualLocation := True\<rparr>, {})"
| "handle env s (ChangeLat v) = (s\<lparr>manualLocation := (manualLocation s)\<lparr>lat := v\<rparr>\<rparr>, {})"
| "handle env s (ChangeLon v) = (s\<lparr>manualLocation := (manualLocation s)\<lparr>lon := v\<rparr>\<rparr>, {})"
| "handle env s ClickFindStations =
     (case setManualLocationAndFetch env s of
        (s', True) \<Rightarrow> (s', {UserLocation})
      | (s', False) \<Rightarrow> (s', {}))"
| "handle env s ClickCancel = (s\<lparr>showManualLocation := False\<rparr>, {})"
| "handle env s (SelectStation i) = (s\<lparr>selectedStationId := Some i\<rparr>, {})"
| "handle env s (GeoSuccess r latitude longitude) =
     (onPosition latitude longitude (s\<lparr>geoRequests := removeAll r (geoRequests s)\<rparr>),
      {UserLocation})"
| "handle env s (GeoFailure r code) =
     (onPositionError code (s\<lparr>geoRequests := removeAll r (geoRequests s)\<rparr>), {})"
| "handle env s (FetchSettled r outcome) =
     (case map_of (fetchRequests s) r of
        None \<Rightarrow> (s, {})
      | Some u \<Rightarrow>
          (case load_finish env u outcome
                  (s\<lparr>fetchRequests := filter (\<lambda>p. fst p \<noteq> r) (fetchRequests s)\<rparr>) of
             (s', True) \<Rightarrow> (s', {Stations})
           | (s', False) \<Rightarrow> (s', {})))"

definition step :: "env \<Rightarrow> app \<Rightarrow> event \<Rightarrow> app" where
  "step env s ev = (case handle env s ev of (s', deps) \<Rightarrow> run_effects deps s')"

text \<open>
  When an event can happen: a button can be clicked when it is rendered and not disabled,
  a request can complete when it is in flight.
\<close>

fun enabled :: "app \<Rightarrow> event \<Rightarrow> bool" where
  "enabled s ClickLocate \<longleftrightarrow> \<not> isLocating s"
| "enabled s ClickTryAgain \<longleftrightarrow> geoError s \<noteq> None \<and> \<not> loading s \<and> \<not> isLocating s"
| "enabled s ClickEnterManually \<longleftrightarrow> geoError s \<noteq> None \<and> \<not> loading s"
| "enabled s (ChangeLat v) \<longleftrightarrow> showManualLocation s"
| "enabled s (ChangeLon v) \<longleftrightarrow> showManualLocation s"
| "enabled s ClickFindStations \<longleftrightarrow> showManualLocation s"
| "enabled s ClickCancel \<longleftrightarrow> showManualLocation s"
| "enabled s (SelectStation i) \<longleftrightarrow> i \<in> st_id ` set (stations s)"
| "enabled s (GeoSuccess r latitude longitude) \<longleftrightarrow> r \<in> set (geoRequests s)"
| "enabled s (GeoFailure r code) \<longleftrightarrow> r \<in> set (geoRequests s)"
| "enabled s (FetchSettled r outcome) \<longleftrightarrow> r \<in> fst ` set (fetchRequests s)"

text \<open>
  The state after the first render and its effects: the initial values of the hooks, then
  \<open>setLoading(true); getCurrentLocation()\<close>, the load effect and the route effect.
\<close>

definition initial :: app where
  "initial = \<lparr>userLocation = None, stations = [], loading = True, error = None,
              selectedStationId = None, routeCoords = None, geoError = None,
              isLocating = False, showManualLocation = False,
              manualLocation = \<lparr>lat = [], lon = []\<rparr>,
              geoRequests = [], fetchRequests = [], nextRequest = 0, alerts = []\<rparr>"

definition mount :: "env \<Rightarrow> app" where
  "mount env = route_effect (load_start (getCurrentLocation env (initial\<lparr>loading := True\<rparr>)))"

fun run :: "env \<Rightarrow> app \<Rightarrow> event list \<Rightarrow> app" where
  "run env s [] = s"
| "run env s (ev # evs) = run env (step env s ev) evs"

text \<open>A trace whose every event can happen at the state it meets.\<close>

fun possible :: "env \<Rightarrow> app \<Rightarrow> event list \<Rightarrow> bool" where
  "possible env s [] = True"
| "possible env s (ev # evs) = (enabled s ev \<and> possible env (step env s ev) evs)"

inductive reachable :: "env \<Rightarrow> app \<Rightarrow> bool" for env where
  mounted: "reachable env (mount env)"
| stepped: "reachable env s \<Longrightarrow> enabled s ev \<Longrightarrow> reachable env (step env s ev)"


text \<open>
  The validation as the specification words it: a latitude in \<open>[-90, 90]\<close> and a
  longitude in \<open>[-180, 180]\<close>; a value that is not a finite number is in no interval.
\<close>

fun in_interval :: "real \<Rightarrow> real \<Rightarrow> jsnum \<Rightarrow> bool" where
  "in_interval lo hi (Num x) \<longleftrightarrow> lo \<le> x \<and> x \<le> hi"
| "in_interval lo hi _ \<longleftrightarrow> False"

definition valid_manual :: "env \<Rightarrow> string latlon \<Rightarrow> bool" where
  "valid_manual env m \<longleftrightarrow>
     in_interval (- 90) 90 (parseFloat env (lat m)) \<and>
     in_interval (- 180) 180 (parseFloat env (lon m))"

definition invalid_alert :: string where
  "invalid_alert = ''Please enter valid coordinates (Lat: -90 to 90, Lon: -180 to 180)''"

text \<open>
  A platform for the examples: it has geolocation, its \<open>parseFloat\<close> is the builtin's
  on the four texts the examples type (the empty text is not a number), and its \<open>Math\<close>
  is the one above.
\<close>

definition example_env :: env where
  "example_env = \<lparr>hasGeolocation = True,
     parseFloat = (\<lambda>t. if t = ''10'' then Num 10 else if t = ''20'' then Num 20
                        else if t = ''200'' then Num 200 else NaN),
     Math = example_math\<rparr>"

text \<open>
  The first device request fails, the user opens the manual form and asks the device
  again, submits 10, 20 by hand while that request is in flight, and then the device
  answers.
\<close>

definition manual_then_device :: "event list" where
  "manual_then_device =
     [GeoFailure 0 1, ClickEnterManually, ClickTryAgain, ChangeLat ''10'', ChangeLon ''20'',
      ClickFindStations, GeoSuccess 1 (Num 50) (Num 60)]"


text \<open>The route overlay is the one that the location and the stations of the state call for.\<close>

definition route_ok :: "app \<Rightarrow> bool" where
  "route_ok s \<longleftrightarrow> routeCoords s =
     (case userLocation s of
        None \<Rightarrow> None
      | Some u \<Rightarrow> (case stations s of
                     [] \<Rightarrow> None
                   | nearest # _ \<Rightarrow> Some [(Some (lat u), Some (lon u)), (lat nearest, lon nearest)]))"


text \<open>The device answers, and the query returns one way with its centre.\<close>

definition locate_and_load :: "event list" where
  "locate_and_load =
     [GeoSuccess 0 (Num 12) (Num 77), FetchSettled 1 (ok_response (Some [way_10]))]"


chapter \<open>Properties\<close>

section \<open>Properties of \<open>fetchStations\<close>\<close>

lemma array_map_all_Inr:
  "\<forall>x \<in> set xs. f x = Inr (g x) \<Longrightarrow> array_map f xs = Inr (map g xs)"
  by (induction xs) simp_all

lemma array_map_Inl_iff:
  "(\<exists>e. array_map f xs = Inl e) \<longleftrightarrow> (\<exists>x \<in> set xs. \<exists>e. f x = Inl e)"
  by (induction xs) (auto split: sum.splits)

lemma element_to_station_Inl_iff:
  "(\<exists>e. element_to_station el = Inl e) \<longleftrightarrow> \<not> has_center el"
  by (auto simp: element_to_station_def has_center_def Let_def split: option.splits)

lemma element_to_station_Inr:
  "has_center el \<Longrightarrow> \<exists>s. element_to_station el = Inr s \<and> st_id s = el_id el \<and>
     (el_type el = ''node'' \<longrightarrow> lat s = lat el \<and> lon s = lon el) \<and>
     (el_type el \<noteq> ''node'' \<longrightarrow> Some (latlon.truncate s) = center el)"
  by (auto simp: element_to_station_def has_center_def Let_def latlon.truncate_def
      split: option.splits)

lemma array_map_list_all2:
  "\<forall>x \<in> set xs. \<exists>y. f x = Inr y \<and> P x y \<Longrightarrow>
   \<exists>ys. array_map f xs = Inr ys \<and> list_all2 P xs ys"
proof (induction xs)
  case Nil
  show ?case by simp
next
  case (Cons x xs)
  from Cons.prems obtain y where y: "f x = Inr y" "P x y" by auto
  from Cons obtain ys where ys: "array_map f xs = Inr ys" "list_all2 P xs ys" by auto
  from y ys show ?case by simp
qed

text \<open>
  C3 (as stated: a malformed element is skipped and never aborts the batch). The code has
  no skipping at all. A way without a centre next to a complete node makes the whole call
  throw, and a node without \<open>lat\<close>/\<open>lon\<close> is not skipped: it becomes a station whose
  coordinates are undefined.
\<close>

theorem fetchStations_malformed_counterexample:
  "fetchStations (ok_response (Some [node_7, way_8])) = Inl TypeError \<and>
   (\<exists>s. fetchStations (ok_response (Some [node_9])) = Inr [s] \<and>
        st_id s = 9 \<and> lat s = None \<and> lon s = None)"
  by (simp add: fetchStations_def ok_response_def element_to_station_def
      node_7_def way_8_def node_9_def no_tags_def)

text \<open>
  C3 (amended): when every element of a successful response is a node or carries a
  centre, \<open>fetchStations\<close> returns exactly one station per element, in the order of the
  response; none is skipped. A node's station has the node's own \<open>lat\<close> and \<open>lon\<close>
  (undefined when the node has none), any other element's station has its centre's.
\<close>

theorem fetchStations_keeps_every_element:
  assumes "\<forall>el \<in> set els. has_center el"
  shows "\<exists>sts. fetchStations (ok_response (Some els)) = Inr sts \<and> length sts = length els \<and>
     (\<forall>i < length els. st_id (sts ! i) = el_id (els ! i) \<and>
        (el_type (els ! i) = ''node'' \<longrightarrow>
           lat (sts ! i) = lat (els ! i) \<and> lon (sts ! i) = lon (els ! i)) \<and>
        (el_type (els ! i) \<noteq> ''node'' \<longrightarrow>
           Some (latlon.truncate (sts ! i)) = center (els ! i)))"
proof -
  let ?P = "\<lambda>el s. st_id s = el_id el \<and>
     (el_type el = ''node'' \<longrightarrow> lat s = lat el \<and> lon s = lon el) \<and>
     (el_type el \<noteq> ''node'' \<longrightarrow> Some (latlon.truncate s) = center el)"
  from assms have "\<forall>el \<in> set els. \<exists>s. element_to_station el = Inr s \<and> ?P el s"
    using element_to_station_Inr by blast
  then obtain sts where sts: "array_map element_to_station els = Inr sts" "list_all2 ?P els sts"
    using array_map_list_all2 [of els element_to_station ?P] by blast
  from sts(2) have len: "length sts = length els"
    by (simp add: list_all2_lengthD)
  from sts(2) have nth: "\<forall>i < length els. ?P (els ! i) (sts ! i)"
    by (simp add: list_all2_conv_all_nth)
  from sts(1) have "fetchStations (ok_response (Some els)) = Inr sts"
    by (simp add: fetchStations_def ok_response_def)
  with len nth show ?thesis by blast
qed

theorem fetchStations_keeps_every_element_witness:
  "has_center node_7 \<and> has_center node_9 \<and> has_center way_10 \<and>
   (\<exists>sts. fetchStations (ok_response (Some [node_7, node_9, way_10])) = Inr sts \<and>
      length sts = 3 \<and> map st_id sts = [7, 9, 10] \<and>
      lat (sts ! 1) = None \<and> lat (sts ! 2) = Some (Num 13) \<and>
      address (sts ! 2) = ''MG Road Bengaluru'')"
proof -
  have h: "\<forall>el \<in> set [node_7, node_9, way_10]. has_center el"
    by (simp add: has_center_def node_7_def node_9_def way_10_def)
  have run: "fetchStations (ok_response (Some [node_7, node_9, way_10])) =
      Inr [\<lparr>lat = Some (Num 12), lon = Some (Num 77), st_id = 7, st_name = None,
             st_brand = None, address = [], distanceMeters = None\<rparr>,
           \<lparr>lat = None, lon = None, st_id = 9, st_name = None,
             st_brand = None, address = [], distanceMeters = None\<rparr>,
           \<lparr>lat = Some (Num 13), lon = Some (Num 78), st_id = 10, st_name = Some ''Shell'',
             st_brand = None, address = ''MG Road Bengaluru'', distanceMeters = None\<rparr>]"
    by (simp add: fetchStations_def ok_response_def element_to_station_def
        node_7_def node_9_def way_10_def no_tags_def)
  from fetchStations_keeps_every_element [OF h] obtain sts where
    "fetchStations (ok_response (Some [node_7, node_9, way_10])) = Inr sts" by blast
  with run h show ?thesis by simp
qed

text \<open>
  C9 (as stated: an error is raised exactly when the HTTP status is non-success). A
  response with a success status raises all the same when one of its elements is not a
  node and has no centre, or when its body is not JSON.
\<close>

theorem fetchStations_error_counterexample:
  "ok \<lparr>ok = True, json = Some \<lparr>elements = Some [way_8]\<rparr>\<rparr> \<and>
   fetchStations (Responded \<lparr>ok = True, json = Some \<lparr>elements = Some [way_8]\<rparr>\<rparr>) = Inl TypeError \<and>
   fetchStations (Responded \<lparr>ok = True, json = None\<rparr>) = Inl SyntaxError"
  by (simp add: fetchStations_def element_to_station_def way_8_def)

text \<open>
  C9 (amended): a successful response whose elements list is empty or absent yields the
  empty station collection and no error; a non-success status always raises the error
  \<open>Failed to fetch stations\<close>; and a successful JSON response in which every element is a
  node or carries a centre raises no error.
\<close>

theorem fetchStations_error_cases:
  "((els = None \<or> els = Some []) \<longrightarrow> fetchStations (ok_response els) = Inr []) \<and>
   (\<not> ok res \<longrightarrow> fetchStations (Responded res) = Inl (Error ''Failed to fetch stations'')) \<and>
   (ok res \<and> json res = Some data \<and> (\<forall>el \<in> set (elements_list data). has_center el) \<longrightarrow>
      (\<exists>sts. fetchStations (Responded res) = Inr sts))"
proof (intro conjI impI)
  assume "els = None \<or> els = Some []"
  then show "fetchStations (ok_response els) = Inr []"
    by (auto simp: fetchStations_def ok_response_def)
next
  assume "\<not> ok res"
  then show "fetchStations (Responded res) = Inl (Error ''Failed to fetch stations'')"
    by (simp add: fetchStations_def)
next
  assume a: "ok res \<and> json res = Some data \<and> (\<forall>el \<in> set (elements_list data). has_center el)"
  then have "\<not> (\<exists>e. array_map element_to_station (elements_list data) = Inl e)"
    by (simp add: array_map_Inl_iff element_to_station_Inl_iff)
  then obtain sts where "array_map element_to_station (elements_list data) = Inr sts"
    by (cases "array_map element_to_station (elements_list data)") auto
  with a show "\<exists>sts. fetchStations (Responded res) = Inr sts"
    by (simp add: fetchStations_def elements_list_def)
qed

theorem fetchStations_error_cases_witness:
  "fetchStations (ok_response None) = Inr [] \<and>
   fetchStations (ok_response (Some [])) = Inr [] \<and>
   \<not> ok \<lparr>ok = False, json = None\<rparr> \<and>
   fetchStations (Responded \<lparr>ok = False, json = None\<rparr>) = Inl (Error ''Failed to fetch stations'') \<and>
   (\<exists>sts. fetchStations (Responded \<lparr>ok = True, json = Some \<lparr>elements = Some [node_7, way_10]\<rparr>\<rparr>) = Inr sts)"
proof -
  have c: "\<forall>el \<in> set (elements_list \<lparr>elements = Some [node_7, way_10]\<rparr>). has_center el"
    by (simp add: elements_list_def has_center_def node_7_def way_10_def)
  from fetchStations_error_cases [of None "\<lparr>ok = False, json = None\<rparr>" undefined]
  have 1: "fetchStations (ok_response None) = Inr []"
    and 2: "fetchStations (Responded \<lparr>ok = False, json = None\<rparr>) = Inl (Error ''Failed to fetch stations'')"
    by simp_all
  from fetchStations_error_cases [of "Some []"
      "\<lparr>ok = True, json = Some \<lparr>elements = Some [node_7, way_10]\<rparr>\<rparr>"
      "\<lparr>elements = Some [node_7, way_10]\<rparr>"] c
  have 3: "fetchStations (ok_response (Some [])) = Inr []"
    and 4: "\<exists>sts. fetchStations (Responded \<lparr>ok = True, json = Some \<lparr>elements = Some [node_7, way_10]\<rparr>\<rparr>) = Inr sts"
    by simp_all
  from 1 2 3 4 show ?thesis by simp
qed


section \<open>Properties of \<open>sortStationsByDistance\<close>\<close>

lemma js_le_trans:
  "js_le a b \<Longrightarrow> js_le b c \<Longrightarrow> js_le a c"
  by (cases a; cases b; cases c) (auto simp: js_le_def)

lemma sort_compare_positive_iff:
  "\<not> isNaN a \<Longrightarrow> \<not> isNaN b \<Longrightarrow>
   js_lt (Num 0) (sort_compare (\<lambda>x y. js_sub (k x) (k y)) u v) \<longleftrightarrow> \<not> js_le a b"
  if "k u = a" "k v = b"
  using that by (cases a; cases b) (auto simp: sort_compare_def js_le_def Let_def)

lemma mset_insert_sorted: "mset (insert_sorted c x ys) = add_mset x (mset ys)"
  by (induction ys) auto

lemma set_insert_sorted: "set (insert_sorted c x ys) = insert x (set ys)"
  by (induction ys) auto

lemma mset_array_sort: "mset (array_sort c xs) = mset xs"
  by (induction xs) (auto simp: array_sort_def mset_insert_sorted)

lemma set_array_sort: "set (array_sort c xs) = set xs"
  using mset_array_sort [of c xs] by (metis set_mset_mset)

text \<open>On keys that are numbers, an insertion keeps an ordered list ordered.\<close>

lemma sorted_insert_sorted:
  assumes "\<not> isNaN (k x)" "\<forall>y \<in> set ys. \<not> isNaN (k y)"
    and "sorted_wrt (\<lambda>a b. js_le (k a) (k b)) ys"
  shows "sorted_wrt (\<lambda>a b. js_le (k a) (k b)) (insert_sorted (\<lambda>x y. js_sub (k x) (k y)) x ys)"
  using assms
proof (induction ys)
  case Nil
  show ?case by simp
next
  case (Cons y ys)
  let ?c = "\<lambda>x y. js_sub (k x) (k y)"
  have pos: "js_lt (Num 0) (sort_compare ?c x y) \<longleftrightarrow> \<not> js_le (k x) (k y)"
    using Cons.prems by (intro sort_compare_positive_iff) auto
  show ?case
  proof (cases "js_le (k x) (k y)")
    case True
    then have "\<forall>z \<in> set ys. js_le (k x) (k z)"
      using Cons.prems(3) js_le_trans by fastforce
    with True pos Cons.prems(3) show ?thesis by simp
  next
    case False
    then have yx: "js_le (k y) (k x)"
      using Cons.prems(1,2) by (cases "k x"; cases "k y") (auto simp: js_le_def)
    have "sorted_wrt (\<lambda>a b. js_le (k a) (k b)) (insert_sorted ?c x ys)"
      using Cons by simp
    moreover have "\<forall>z \<in> set (insert_sorted ?c x ys). js_le (k y) (k z)"
    proof
      fix z assume "z \<in> set (insert_sorted ?c x ys)"
      then have "z = x \<or> z \<in> set ys" by (simp add: set_insert_sorted)
      with yx Cons.prems(3) show "js_le (k y) (k z)" by auto
    qed
    ultimately show ?thesis using False pos by simp
  qed
qed

lemma sorted_array_sort:
  assumes "\<forall>x \<in> set xs. \<not> isNaN (k x)"
  shows "sorted_wrt (\<lambda>a b. js_le (k a) (k b)) (array_sort (\<lambda>x y. js_sub (k x) (k y)) xs)"
  using assms
proof (induction xs)
  case Nil
  show ?case by (simp add: array_sort_def)
next
  case (Cons x xs)
  have "sorted_wrt (\<lambda>a b. js_le (k a) (k b))
          (insert_sorted (\<lambda>x y. js_sub (k x) (k y)) x (array_sort (\<lambda>x y. js_sub (k x) (k y)) xs))"
    using Cons by (intro sorted_insert_sorted) (auto simp: set_array_sort)
  then show ?case by (simp add: array_sort_def)
qed

lemma filter_insert_sorted_other:
  "\<not> P x \<Longrightarrow> filter P (insert_sorted c x ys) = filter P ys"
  by (induction ys) auto

lemma filter_insert_sorted_same:
  assumes "\<not> isNaN (k x)" "\<forall>y \<in> set ys. \<not> isNaN (k y)"
  shows "filter (\<lambda>s. k s = k x) (insert_sorted (\<lambda>x y. js_sub (k x) (k y)) x ys) =
         x # filter (\<lambda>s. k s = k x) ys"
  using assms
proof (induction ys)
  case Nil
  show ?case by simp
next
  case (Cons y ys)
  have pos: "js_lt (Num 0) (sort_compare (\<lambda>x y. js_sub (k x) (k y)) x y) \<longleftrightarrow> \<not> js_le (k x) (k y)"
    using Cons.prems by (intro sort_compare_positive_iff) auto
  have "k y = k x \<Longrightarrow> js_le (k x) (k y)"
    using Cons.prems(1) by (simp add: js_le_def)
  with pos Cons show ?case by auto
qed

lemma stable_array_sort:
  assumes "\<forall>x \<in> set xs. \<not> isNaN (k x)"
  shows "filter (\<lambda>s. k s = d) (array_sort (\<lambda>x y. js_sub (k x) (k y)) xs) = filter (\<lambda>s. k s = d) xs"
  using assms
proof (induction xs)
  case Nil
  show ?case by (simp add: array_sort_def)
next
  case (Cons x xs)
  let ?c = "\<lambda>x y. js_sub (k x) (k y)"
  have IH: "filter (\<lambda>s. k s = d) (array_sort ?c xs) = filter (\<lambda>s. k s = d) xs"
    using Cons by simp
  show ?case
  proof (cases "k x = d")
    case True
    have "filter (\<lambda>s. k s = k x) (insert_sorted ?c x (array_sort ?c xs)) =
          x # filter (\<lambda>s. k s = k x) (array_sort ?c xs)"
      using Cons.prems by (intro filter_insert_sorted_same) (auto simp: set_array_sort)
    with True IH show ?thesis by (simp add: array_sort_def)
  next
    case False
    with IH show ?thesis by (simp add: array_sort_def filter_insert_sorted_other)
  qed
qed

text \<open>
  The choice of the insertion sort for the builtin does not matter where the comparator is
  consistent: a rearrangement that is ordered and keeps the elements of equal key in
  their order is unique, so every sort the language allows returns what the model returns.
\<close>

lemma number_rank_le_iff:
  "\<not> isNaN a \<Longrightarrow> \<not> isNaN b \<Longrightarrow> number_rank a \<le> number_rank b \<longleftrightarrow> js_le a b"
  by (cases a; cases b) (auto simp: js_le_def less_eq_prod_def)

lemma number_rank_eq_iff: "number_rank a = number_rank b \<longleftrightarrow> a = b"
  by (cases a; cases b) auto

lemma insert_sorted_eq_insort_key:
  assumes "\<not> isNaN (k x)" "\<forall>y \<in> set ys. \<not> isNaN (k y)"
  shows "insert_sorted (\<lambda>x y. js_sub (k x) (k y)) x ys = insort_key (\<lambda>s. number_rank (k s)) x ys"
  using assms
proof (induction ys)
  case Nil
  show ?case by simp
next
  case (Cons y ys)
  have "js_lt (Num 0) (sort_compare (\<lambda>x y. js_sub (k x) (k y)) x y) \<longleftrightarrow> \<not> js_le (k x) (k y)"
    using Cons.prems by (intro sort_compare_positive_iff) auto
  moreover have "number_rank (k x) \<le> number_rank (k y) \<longleftrightarrow> js_le (k x) (k y)"
    using Cons.prems by (intro number_rank_le_iff) auto
  ultimately show ?case using Cons by simp
qed

lemma array_sort_eq_sort_key:
  assumes "\<forall>x \<in> set xs. \<not> isNaN (k x)"
  shows "array_sort (\<lambda>x y. js_sub (k x) (k y)) xs = sort_key (\<lambda>s. number_rank (k s)) xs"
  using assms
proof (induction xs)
  case Nil
  show ?case by (simp add: array_sort_def)
next
  case (Cons x xs)
  then have IH: "array_sort (\<lambda>x y. js_sub (k x) (k y)) xs = sort_key (\<lambda>s. number_rank (k s)) xs"
    by simp
  have "insert_sorted (\<lambda>x y. js_sub (k x) (k y)) x (sort_key (\<lambda>s. number_rank (k s)) xs) =
        insort_key (\<lambda>s. number_rank (k s)) x (sort_key (\<lambda>s. number_rank (k s)) xs)"
    using Cons.prems by (intro insert_sorted_eq_insort_key) auto
  with IH show ?case
    by (simp add: array_sort_def)
qed

lemma stable_sorted_unique:
  assumes nan: "\<forall>x \<in> set xs. \<not> isNaN (k x)"
    and perm: "mset ys = mset xs"
    and sorted: "sorted_wrt (\<lambda>a b. js_le (k a) (k b)) ys"
    and stable: "\<And>d. filter (\<lambda>s. k s = d) ys = filter (\<lambda>s. k s = d) xs"
  shows "ys = array_sort (\<lambda>x y. js_sub (k x) (k y)) xs"
proof -
  have set: "set ys = set xs" using perm by (rule mset_eq_setD)
  have "sort_key (\<lambda>s. number_rank (k s)) xs = ys"
  proof (rule properties_for_sort_key [OF perm])
    fix z
    have "filter (\<lambda>x. number_rank (k z) = number_rank (k x)) ys = filter (\<lambda>s. k s = k z) ys"
      by (intro filter_cong) (auto simp: number_rank_eq_iff)
    also have "\<dots> = filter (\<lambda>s. k s = k z) xs" by (rule stable)
    also have "\<dots> = filter (\<lambda>x. number_rank (k z) = number_rank (k x)) xs"
      by (intro filter_cong) (auto simp: number_rank_eq_iff)
    finally show "filter (\<lambda>x. number_rank (k z) = number_rank (k x)) ys =
        filter (\<lambda>x. number_rank (k z) = number_rank (k x)) xs" .
  next
    have "sorted_wrt (\<lambda>a b. number_rank (k a) \<le> number_rank (k b)) ys"
      using sorted
    proof (rule sorted_wrt_mono_rel [rotated])
      fix a b
      assume "a \<in> set ys" "b \<in> set ys" "js_le (k a) (k b)"
      with nan set show "number_rank (k a) \<le> number_rank (k b)"
        by (simp add: number_rank_le_iff)
    qed
    then show "sorted (map (\<lambda>s. number_rank (k s)) ys)"
      by (simp add: sorted_map)
  qed
  with array_sort_eq_sort_key [OF nan] show ?thesis by simp
qed

lemma numeric_key:
  "numeric_distance s \<Longrightarrow> \<not> isNaN (nullish (distanceMeters s) (Num 0))"
  by (cases "distanceMeters s") (auto simp: numeric_distance_def)

lemma numeric_key_eq:
  "numeric_distance s \<Longrightarrow> distanceMeters s = Some d \<longleftrightarrow> nullish (distanceMeters s) (Num 0) = d"
  by (cases "distanceMeters s") (auto simp: numeric_distance_def)

lemma sortStationsByDistance_key:
  "sortStationsByDistance xs =
     array_sort (\<lambda>x y. js_sub (nullish (distanceMeters x) (Num 0)) (nullish (distanceMeters y) (Num 0))) xs"
  by (simp add: sortStationsByDistance_def by_distance_def [abs_def])

text \<open>
  C1: on stations that each carry a numeric distance, the result of
  \<open>sortStationsByDistance\<close> is a rearrangement of the input in which distances ascend,
  and the stations of any one distance come in their input order. On the distances
  300, 100, 300, 50 (stations 1 to 4) the result is the stations 4, 2, 1, 3.
\<close>

theorem sortStationsByDistance_sorted_stable:
  assumes "\<forall>s \<in> set xs. numeric_distance s"
  shows "mset (sortStationsByDistance xs) = mset xs \<and>
     sorted_wrt (\<lambda>a b. \<exists>da db. distanceMeters a = Some da \<and> distanceMeters b = Some db \<and> js_le da db)
       (sortStationsByDistance xs) \<and>
     (\<forall>d. filter (\<lambda>s. distanceMeters s = Some d) (sortStationsByDistance xs) =
          filter (\<lambda>s. distanceMeters s = Some d) xs) \<and>
     map st_id (sortStationsByDistance
        [station_at 1 (Some (Num 300)), station_at 2 (Some (Num 100)),
         station_at 3 (Some (Num 300)), station_at 4 (Some (Num 50))]) = [4, 2, 1, 3]"
proof (intro conjI allI)
  let ?k = "\<lambda>s. nullish (distanceMeters s) (Num 0)"
  have nan: "\<forall>s \<in> set xs. \<not> isNaN (?k s)"
    using assms numeric_key by blast
  show "mset (sortStationsByDistance xs) = mset xs"
    by (simp add: sortStationsByDistance_def mset_array_sort)
  have num: "\<forall>s \<in> set (sortStationsByDistance xs). numeric_distance s"
    using assms by (simp add: sortStationsByDistance_def set_array_sort)
  have "sorted_wrt (\<lambda>a b. js_le (?k a) (?k b)) (sortStationsByDistance xs)"
    unfolding sortStationsByDistance_key using nan by (rule sorted_array_sort)
  then have "sorted_wrt (\<lambda>a b. (a \<in> set (sortStationsByDistance xs) \<and> b \<in> set (sortStationsByDistance xs)) \<and> js_le (?k a) (?k b)) (sortStationsByDistance xs)"
    by (simp add: sorted_wrt_iff_nth_less)
  then show "sorted_wrt (\<lambda>a b. \<exists>da db. distanceMeters a = Some da \<and> distanceMeters b = Some db \<and> js_le da db)
       (sortStationsByDistance xs)"
  proof (rule sorted_wrt_mono_rel [rotated])
    fix a b
    assume "a \<in> set (sortStationsByDistance xs)" "b \<in> set (sortStationsByDistance xs)"
      and ab: "(a \<in> set (sortStationsByDistance xs) \<and> b \<in> set (sortStationsByDistance xs)) \<and> js_le (?k a) (?k b)"
    then have "numeric_distance a" "numeric_distance b" using num by auto
    then obtain da db where "distanceMeters a = Some da" "distanceMeters b = Some db"
      by (auto simp: numeric_distance_def)
    with ab show "\<exists>da db. distanceMeters a = Some da \<and> distanceMeters b = Some db \<and> js_le da db"
      by simp
  qed
next
  fix d
  let ?k = "\<lambda>s. nullish (distanceMeters s) (Num 0)"
  have nan: "\<forall>s \<in> set xs. \<not> isNaN (?k s)"
    using assms numeric_key by blast
  have num: "\<forall>s \<in> set (sortStationsByDistance xs). numeric_distance s"
    using assms by (simp add: sortStationsByDistance_def set_array_sort)
  have "filter (\<lambda>s. distanceMeters s = Some d) (sortStationsByDistance xs) =
        filter (\<lambda>s. ?k s = d) (sortStationsByDistance xs)"
    using num numeric_key_eq by (intro filter_cong) auto
  also have "\<dots> = filter (\<lambda>s. ?k s = d) xs"
    unfolding sortStationsByDistance_key using nan by (rule stable_array_sort)
  also have "\<dots> = filter (\<lambda>s. distanceMeters s = Some d) xs"
    using assms numeric_key_eq by (intro filter_cong) auto
  finally show "filter (\<lambda>s. distanceMeters s = Some d) (sortStationsByDistance xs) =
        filter (\<lambda>s. distanceMeters s = Some d) xs" .
next
  show "map st_id (sortStationsByDistance
        [station_at 1 (Some (Num 300)), station_at 2 (Some (Num 100)),
         station_at 3 (Some (Num 300)), station_at 4 (Some (Num 50))]) = [4, 2, 1, 3]"
    by (simp add: sortStationsByDistance_def array_sort_def by_distance_def
        sort_compare_def station_at_def)
qed

theorem sortStationsByDistance_sorted_stable_witness:
  "numeric_distance (station_at 1 (Some PosInf)) \<and> numeric_distance (station_at 2 (Some (Num 5))) \<and>
   numeric_distance (station_at 3 (Some (Num 5))) \<and> numeric_distance (station_at 4 (Some (Num 0))) \<and>
   sortStationsByDistance
     [station_at 1 (Some PosInf), station_at 2 (Some (Num 5)),
      station_at 3 (Some (Num 5)), station_at 4 (Some (Num 0))] =
     [station_at 4 (Some (Num 0)), station_at 2 (Some (Num 5)),
      station_at 3 (Some (Num 5)), station_at 1 (Some PosInf)] \<and>
   sorted_wrt (\<lambda>a b. \<exists>da db. distanceMeters a = Some da \<and> distanceMeters b = Some db \<and> js_le da db)
     [station_at 4 (Some (Num 0)), station_at 2 (Some (Num 5)),
      station_at 3 (Some (Num 5)), station_at 1 (Some PosInf)] \<and>
   filter (\<lambda>s. distanceMeters s = Some (Num 5))
     [station_at 4 (Some (Num 0)), station_at 2 (Some (Num 5)),
      station_at 3 (Some (Num 5)), station_at 1 (Some PosInf)] =
     [station_at 2 (Some (Num 5)), station_at 3 (Some (Num 5))]"
proof -
  let ?xs = "[station_at 1 (Some PosInf), station_at 2 (Some (Num 5)),
      station_at 3 (Some (Num 5)), station_at 4 (Some (Num 0))]"
  have num: "numeric_distance (station_at 1 (Some PosInf))" "numeric_distance (station_at 2 (Some (Num 5)))"
    "numeric_distance (station_at 3 (Some (Num 5)))" "numeric_distance (station_at 4 (Some (Num 0)))"
    by (simp_all add: numeric_distance_def station_at_def)
  then have h: "\<forall>s \<in> set ?xs. numeric_distance s" by simp
  have run: "sortStationsByDistance ?xs =
     [station_at 4 (Some (Num 0)), station_at 2 (Some (Num 5)),
      station_at 3 (Some (Num 5)), station_at 1 (Some PosInf)]"
    by (simp add: sortStationsByDistance_def array_sort_def by_distance_def
        sort_compare_def station_at_def)
  note inst = sortStationsByDistance_sorted_stable [OF h, unfolded run]
  from inst have s: "sorted_wrt (\<lambda>a b. \<exists>da db. distanceMeters a = Some da \<and> distanceMeters b = Some db \<and> js_le da db)
     [station_at 4 (Some (Num 0)), station_at 2 (Some (Num 5)),
      station_at 3 (Some (Num 5)), station_at 1 (Some PosInf)]" by blast
  from inst have "filter (\<lambda>s. distanceMeters s = Some (Num 5))
     [station_at 4 (Some (Num 0)), station_at 2 (Some (Num 5)),
      station_at 3 (Some (Num 5)), station_at 1 (Some PosInf)] =
     filter (\<lambda>s. distanceMeters s = Some (Num 5)) ?xs" by blast
  also have "\<dots> = [station_at 2 (Some (Num 5)), station_at 3 (Some (Num 5))]"
    by (simp add: station_at_def)
  finally have f: "filter (\<lambda>s. distanceMeters s = Some (Num 5))
     [station_at 4 (Some (Num 0)), station_at 2 (Some (Num 5)),
      station_at 3 (Some (Num 5)), station_at 1 (Some PosInf)] =
     [station_at 2 (Some (Num 5)), station_at 3 (Some (Num 5))]" .
  from num run s f show ?thesis by blast
qed

lemma sortStationsByDistance_store_eq:
  "a < length st \<Longrightarrow>
   sortStationsByDistance_store st a = Some (length st, st @ [sortStationsByDistance (st ! a)])"
  by (simp add: sortStationsByDistance_store_def spread_copy_def sort_in_place_def
      sortStationsByDistance_def)

text \<open>
  C10: called on a live array, \<open>sortStationsByDistance\<close> returns a reference to a new
  array, which holds the sorted stations, and writes to no array that existed before the
  call: the argument has the same elements in the same order afterwards.
\<close>

theorem sortStationsByDistance_fresh_array:
  assumes "a < length st"
  shows "\<exists>b st'. sortStationsByDistance_store st a = Some (b, st') \<and>
     b \<noteq> a \<and> \<not> b < length st \<and> b < length st' \<and>
     st' ! a = st ! a \<and> take (length st) st' = st \<and>
     st' ! b = sortStationsByDistance (st ! a)"
  using assms by (simp add: sortStationsByDistance_store_eq nth_append)

theorem sortStationsByDistance_fresh_array_witness:
  "(0::nat) < length [[station_at 1 (Some (Num 300)), station_at 2 (Some (Num 100))]] \<and>
   (\<exists>b st'. sortStationsByDistance_store
        [[station_at 1 (Some (Num 300)), station_at 2 (Some (Num 100))]] 0 = Some (b, st') \<and>
      b = 1 \<and>
      st' = [[station_at 1 (Some (Num 300)), station_at 2 (Some (Num 100))],
             [station_at 2 (Some (Num 100)), station_at 1 (Some (Num 300))]])"
proof -
  let ?st = "[[station_at 1 (Some (Num 300)), station_at 2 (Some (Num 100))]]"
  have h: "(0::nat) < length ?st" by simp
  have run: "sortStationsByDistance (?st ! 0) =
      [station_at 2 (Some (Num 100)), station_at 1 (Some (Num 300))]"
    by (simp add: sortStationsByDistance_def array_sort_def by_distance_def
        sort_compare_def station_at_def)
  from sortStationsByDistance_fresh_array [OF h] obtain b st' where
    r: "sortStationsByDistance_store ?st 0 = Some (b, st')" "\<not> b < length ?st" "b < length st'"
      "take (length ?st) st' = ?st" "st' ! b = sortStationsByDistance (?st ! 0)"
    by blast
  have eq: "sortStationsByDistance_store ?st 0 = Some (1, ?st @ [sortStationsByDistance (?st ! 0)])"
    using sortStationsByDistance_store_eq [OF h] by simp
  with r(1) have "b = 1" "st' = ?st @ [sortStationsByDistance (?st ! 0)]" by simp_all
  with r(1) run h show ?thesis by simp
qed


section \<open>Properties of the binary64 arithmetic\<close>

text \<open>The rounding with the overflow bound written as a numeral, for evaluation.\<close>

lemma round_binary64_code [code]:
  "round_binary64 x =
     (if x = 0 then Num 0
      else let e = max (binary_exponent \<bar>x\<bar>) (- 1022);
               q = 2 powi (e - 52);
               m = of_int (round_half_even (\<bar>x\<bar> / q)) * q
           in if 179769313486231590772930519078902473361797697894230657273430081157732675805500963132708477322407536021120113879871393357658789768814416622492847430639474124377767893424865485276302219601246094119453082952085005768838150682342462881473913110540827237163350510684586298239947245938479716304835356329624224137216 \<le> m
              then (if 0 < x then PosInf else NegInf)
              else Num (sgn x * m))"
  by (simp add: round_binary64_def)

text \<open>
  Rounding to nearest, found from bounds: a number strictly within half a unit of an integer
  rounds to it, the binary exponent of a number below 1 follows from the integer just above
  its reciprocal, and a positive number is rounded to the nearest multiple of its unit in
  the last place. Rounding is odd.
\<close>

lemma round_half_even_eqI:
  assumes "of_int n - 1 / 2 < y" "y < of_int n + 1 / 2"
  shows "round_half_even y = n"
proof (cases "of_int n \<le> y")
  case True
  with assms have "\<lfloor>y\<rfloor> = n" by linarith
  with assms show ?thesis by (simp add: round_half_even_def)
next
  case False
  with assms have f: "\<lfloor>y\<rfloor> = n - 1" by linarith
  have "1 / 2 < y - of_int (n - 1)" using assms by simp
  then show ?thesis
    unfolding round_half_even_def Let_def f by simp
qed

lemma binary_exponent_below_1:
  assumes "1 / of_int K \<le> x" "x < 1 / of_int (K - 1)" "2 \<le> K"
  shows "binary_exponent x = - bitlen (K - 1)"
proof -
  have K1: "0 < real_of_int (K - 1)" "0 < real_of_int K" using assms(3) by simp_all
  have x0: "0 < x" using assms(1) K1 by (smt (verit) divide_pos_pos)
  have "1 / of_int (K - 1) \<le> (1 :: real)" using assms(3) by simp
  with assms(2) have lt1: "x < 1" by linarith
  have u: "1 / x \<le> of_int K"
    using assms(1) x0 K1 by (simp add: field_simps)
  have l: "of_int (K - 1) < 1 / x"
    using assms(2) x0 K1 by (simp add: field_simps)
  have "\<lceil>1 / x\<rceil> = K"
    using u l by (intro ceiling_unique) simp_all
  with lt1 show ?thesis by (simp add: binary_exponent_def)
qed

lemma round_binary64_nearestI:
  assumes "0 < x" "max (binary_exponent x) (- 1022) = e" "e \<le> 1022"
    and "round_half_even (x / 2 powi (e - 52)) = n" "0 \<le> n" "n \<le> 2 ^ 53"
  shows "round_binary64 x = Num (of_int n * 2 powi (e - 52))"
proof -
  have "of_int n * (2 :: real) powi (e - 52) \<le> 2 ^ 53 * 2 powi (e - 52)"
    using assms(6) by (intro mult_right_mono) (simp_all add: of_int_le_iff [of n "2 ^ 53", where 'a = real, simplified])
  also have "\<dots> = 2 powi (e + 1)"
    by (simp add: power_int_add power_int_diff)
  also have "\<dots> \<le> 2 powi 1023"
    using assms(3) by (intro power_int_increasing) simp_all
  also have "\<dots> < (2 :: real) ^ 1024"
    by simp
  finally have "\<not> 2 ^ 1024 \<le> of_int n * (2 :: real) powi (e - 52)" by simp
  with assms show ?thesis
    by (simp add: round_binary64_def Let_def)
qed

lemma round_binary64_minus: "round_binary64 (- x) = fl_neg (round_binary64 x)"
  by (simp add: round_binary64_def Let_def sgn_if)

lemma bitlen_values: "bitlen 1 = 1" "bitlen 7 = 3"
  by code_simp+

text \<open>Zero is a binary64 number, and a number between -1 and 1 does not overflow.\<close>

lemma round_binary64_0: "round_binary64 0 = Num 0"
  by (simp add: round_binary64_def)

lemma round_half_even_le: "of_int (round_half_even y) \<le> y + 1"
proof -
  have "of_int \<lfloor>y\<rfloor> \<le> y" by simp
  then show ?thesis
    by (simp add: round_half_even_def Let_def) linarith
qed

lemma round_binary64_small:
  assumes "\<bar>x\<bar> \<le> 1"
  shows "\<exists>v. round_binary64 x = Num v"
proof (cases "x = 0")
  case True
  then show ?thesis by (simp add: round_binary64_0)
next
  case False
  define e where "e = max (binary_exponent \<bar>x\<bar>) (- 1022)"
  define q :: real where "q = 2 powi (e - 52)"
  have "binary_exponent \<bar>x\<bar> \<le> 0"
  proof (cases "1 \<le> \<bar>x\<bar>")
    case True
    with assms have "\<bar>x\<bar> = 1" by simp
    then show ?thesis by (simp add: binary_exponent_def bitlen_values)
  next
    case False
    then show ?thesis by (simp add: binary_exponent_def bitlen_nonneg)
  qed
  then have "e \<le> 0" by (simp add: e_def)
  then have "q \<le> 2 powi 0"
    unfolding q_def by (intro power_int_increasing) simp_all
  then have q1: "q \<le> 1" by simp
  have q0: "0 < q" by (simp add: q_def)
  have "of_int (round_half_even (\<bar>x\<bar> / q)) * q \<le> (\<bar>x\<bar> / q + 1) * q"
    using q0 by (intro mult_right_mono round_half_even_le) simp
  also have "\<dots> = \<bar>x\<bar> + q"
    using q0 by (simp add: field_simps)
  also have "\<dots> \<le> 2"
    using assms q1 by simp
  also have "\<dots> < (2 :: real) ^ 1024"
    by simp
  finally have "\<not> 2 ^ 1024 \<le> of_int (round_half_even (\<bar>x\<bar> / q)) * q" by simp
  with False show ?thesis
    by (simp add: round_binary64_def Let_def e_def [symmetric] q_def [symmetric])
qed


section \<open>Properties of \<open>haversineDistanceMeters\<close>\<close>

lemma arctan_series_bounds:
  fixes x :: real
  assumes "0 \<le> x" "x \<le> 1"
  shows "(\<Sum>i<2*n. (-1)^i * (1 / real (i*2+1) * x^(i*2+1))) \<le> arctan x"
    and "arctan x \<le> (\<Sum>i<2*n+1. (-1)^i * (1 / real (i*2+1) * x^(i*2+1)))"
proof -
  let ?a = "\<lambda>n. 1 / real (n*2+1) * x^(n*2+1)"
  have ax: "\<bar>x\<bar> \<le> 1" using assms by simp
  have z: "?a \<longlonglongrightarrow> 0" using zeroseq_arctan_series [OF ax] by simp
  have p: "0 \<le> ?a n" for n using assms by simp
  have m: "?a (Suc n) \<le> ?a n" for n
  proof -
    have "x ^ (Suc n * 2 + 1) \<le> x ^ (n * 2 + 1)"
      using assms by (intro power_decreasing) auto
    moreover have "1 / real (Suc n * 2 + 1) \<le> 1 / real (n * 2 + 1)"
      by (intro divide_left_mono) auto
    ultimately show ?thesis
      using assms by (intro mult_mono) auto
  qed
  note L = summable_Leibniz' [of ?a, OF z p m]
  show "(\<Sum>i<2*n. (-1)^i * (1 / real (i*2+1) * x^(i*2+1))) \<le> arctan x"
    using L(2) [of n] arctan_series [OF ax] by simp
  show "arctan x \<le> (\<Sum>i<2*n+1. (-1)^i * (1 / real (i*2+1) * x^(i*2+1)))"
    using L(4) [of n] arctan_series [OF ax] by simp
qed


lemma toRadians_diff: "toRadians (x - y) = toRadians x - toRadians y"
  by (simp add: toRadians_def algebra_simps diff_divide_distrib)

lemma sin_half_squared: "sin (x / 2) * sin (x / 2) = (1 - cos x) / (2 :: real)"
  using cos_double_sin [of "x / 2"] by (simp add: power2_eq_square)

text \<open>
  In exact arithmetic \<open>a\<close> lies between 0 and 1 for all arguments, so that both square
  roots of the source are taken of non-negative numbers.
\<close>

lemma haversine_a_range:
  "0 \<le> haversine_a lat1 lon1 lat2 lon2" "haversine_a lat1 lon1 lat2 lon2 \<le> 1"
proof -
  define p q t where "p = toRadians lat1" and "q = toRadians lat2"
    and "t = sin (toRadians (lon2 - lon1) / 2) * sin (toRadians (lon2 - lon1) / 2)"
  define s where "s = sin ((q - p) / 2) * sin ((q - p) / 2)"
  have a: "haversine_a lat1 lon1 lat2 lon2 = s + cos p * cos q * t"
    by (simp add: haversine_a_def Let_def toRadians_diff p_def q_def t_def s_def algebra_simps)
  have t: "0 \<le> t" "t \<le> 1"
    unfolding t_def sin_half_squared using cos_le_one [of "toRadians (lon2 - lon1)"]
      cos_ge_minus_one [of "toRadians (lon2 - lon1)"] by simp_all
  have s: "0 \<le> s" "s \<le> 1"
    unfolding s_def sin_half_squared using cos_le_one [of "q - p"]
      cos_ge_minus_one [of "q - p"] by simp_all
  have e: "s + cos p * cos q = (1 + cos (p + q)) / 2"
    unfolding s_def sin_half_squared by (simp add: cos_diff cos_add field_simps)
  have e01: "0 \<le> s + cos p * cos q" "s + cos p * cos q \<le> 1"
  proof -
    have "0 \<le> 1 + cos (p + q)"
      using cos_ge_minus_one [of "p + q"] by linarith
    then show "0 \<le> s + cos p * cos q"
      unfolding e by simp
    show "s + cos p * cos q \<le> 1"
      unfolding e by simp
  qed
  have split: "s + cos p * cos q * t = (1 - t) * s + t * (s + cos p * cos q)"
    by (simp add: algebra_simps)
  have "0 \<le> (1 - t) * s" "0 \<le> t * (s + cos p * cos q)"
    using t s e01 by simp_all
  then show "0 \<le> haversine_a lat1 lon1 lat2 lon2"
    unfolding a split by simp
  have "(1 - t) * s \<le> (1 - t) * 1" "t * (s + cos p * cos q) \<le> t * 1"
    using t s e01 by (intro mult_left_mono; simp)+
  then show "haversine_a lat1 lon1 lat2 lon2 \<le> 1"
    unfolding a split by simp
qed

lemma haversine_a_same: "haversine_a lat1 lon1 lat1 lon1 = 0"
  by (simp add: haversine_a_def toRadians_def)

lemma haversine_a_sym: "haversine_a lat1 lon1 lat2 lon2 = haversine_a lat2 lon2 lat1 lon1"
proof -
  have "toRadians (lat1 - lat2) = - toRadians (lat2 - lat1)"
    "toRadians (lon1 - lon2) = - toRadians (lon2 - lon1)"
    using toRadians_diff [of lat1 lat2] toRadians_diff [of lat2 lat1]
      toRadians_diff [of lon1 lon2] toRadians_diff [of lon2 lon1] by simp_all
  then show ?thesis
    by (simp add: haversine_a_def Let_def mult.commute)
qed

text \<open>In exact arithmetic a point is at distance 0 from itself, and the distance is symmetric.\<close>

lemma haversine_exact_same: "haversineDistanceMeters lat1 lon1 lat1 lon1 = 0"
  by (simp add: haversineDistanceMeters_def haversine_a_same atan2_def)

lemma haversine_exact_sym:
  "haversineDistanceMeters lat1 lon1 lat2 lon2 = haversineDistanceMeters lat2 lon2 lat1 lon1"
  unfolding haversineDistanceMeters_def haversine_a_sym [of lat1 lon1 lat2 lon2] ..




text \<open>The steps of the machine evaluation from (8, -180) to (-8, 0) and back.\<close>

lemma b64_sub_lat: "fl_sub (Num (- 8)) (Num 8) = Num (- 16)"
  by code_simp

lemma b64_sub_lat_back: "fl_sub (Num 8) (Num (- 8)) = Num 16"
  by code_simp

lemma b64_sub_lon: "fl_sub (Num 0) (Num (- 180)) = Num 180"
  by code_simp

lemma b64_sub_lon_back: "fl_sub (Num (- 180)) (Num 0) = Num (- 180)"
  by code_simp

lemma b64_toRadians_m16: "toRadians_binary64 (Num (- 16)) = Num (- (5030569068109113 / 18014398509481984))"
  by (simp add: toRadians_binary64_def Math_PI_def, code_simp)

lemma b64_toRadians_p16: "toRadians_binary64 (Num 16) = Num (5030569068109113 / 18014398509481984)"
  by (simp add: toRadians_binary64_def Math_PI_def, code_simp)

lemma b64_toRadians_p180: "toRadians_binary64 (Num 180) = Num (884279719003555 / 281474976710656)"
  by (simp add: toRadians_binary64_def Math_PI_def, code_simp)

lemma b64_toRadians_m180: "toRadians_binary64 (Num (- 180)) = Num (- (884279719003555 / 281474976710656))"
  by (simp add: toRadians_binary64_def Math_PI_def, code_simp)

lemma b64_toRadians_p8: "toRadians_binary64 (Num 8) = Num (5030569068109113 / 36028797018963968)"
  by (simp add: toRadians_binary64_def Math_PI_def, code_simp)

lemma b64_toRadians_m8: "toRadians_binary64 (Num (- 8)) = Num (- (5030569068109113 / 36028797018963968))"
  by (simp add: toRadians_binary64_def Math_PI_def, code_simp)

lemma b64_half_m16: "divide_by 2 (Num (- (5030569068109113 / 18014398509481984))) = Num (- (5030569068109113 / 36028797018963968))"
  by code_simp

lemma b64_half_p16: "divide_by 2 (Num (5030569068109113 / 18014398509481984)) = Num (5030569068109113 / 36028797018963968)"
  by code_simp

lemma b64_half_p180: "divide_by 2 (Num (884279719003555 / 281474976710656)) = Num (884279719003555 / 562949953421312)"
  by code_simp

lemma b64_half_m180: "divide_by 2 (Num (- (884279719003555 / 281474976710656))) = Num (- (884279719003555 / 562949953421312))"
  by code_simp

lemma b64_sin_sq: "fl_mul (Num (- (5014239404989977 / 36028797018963968))) (Num (- (5014239404989977 / 36028797018963968))) = Num (1395694493897217 / 72057594037927936)"
  by code_simp

lemma b64_sin_sq_back: "fl_mul (Num (5014239404989977 / 36028797018963968)) (Num (5014239404989977 / 36028797018963968)) = Num (1395694493897217 / 72057594037927936)"
  by code_simp

lemma b64_cos_cos: "fl_mul (Num (4459770905381437 / 4503599627370496)) (Num (4459770905381437 / 4503599627370496)) = Num (8832737443003841 / 9007199254740992)"
  by code_simp

lemma b64_times_one: "fl_mul (Num (8832737443003841 / 9007199254740992)) (Num 1) = Num (8832737443003841 / 9007199254740992)"
  by code_simp

lemma b64_times_minus_one: "fl_mul (Num (8832737443003841 / 9007199254740992)) (Num (- 1)) = Num (- (8832737443003841 / 9007199254740992))"
  by code_simp

lemma b64_times_minus_one_twice: "fl_mul (Num (- (8832737443003841 / 9007199254740992))) (Num (- 1)) = Num (8832737443003841 / 9007199254740992)"
  by code_simp

lemma b64_a: "fl_add (Num (1395694493897217 / 72057594037927936)) (Num (8832737443003841 / 9007199254740992)) = Num (4503599627370497 / 4503599627370496)"
  by code_simp

lemma b64_one_minus_a: "fl_sub (Num 1) (Num (4503599627370497 / 4503599627370496)) = Num (- (1 / 4503599627370496))"
  by code_simp

text \<open>
  The values of the example platform. The exact sine and cosine are enclosed by their
  Taylor polynomials of degree 11 with the remainder bound, \<open>pi\<close> by Machin's formula,
  closely enough to tell which binary64 number is nearest.
\<close>

lemma sum_lessThan_12:
  "(\<Sum>m<12. f m) = f 0 + f 1 + f 2 + f 3 + f 4 + f 5 + f 6 + f 7 + f 8 + f 9 + f 10 + f 11"
  for f :: "nat \<Rightarrow> real"
  by (simp add: eval_nat_numeral)

lemma sin_coeff_values:
  "sin_coeff 0 = 0" "sin_coeff 1 = 1" "sin_coeff 2 = 0" "sin_coeff 3 = - 1 / 6"
  "sin_coeff 4 = 0" "sin_coeff 5 = 1 / 120" "sin_coeff 6 = 0" "sin_coeff 7 = - 1 / 5040"
  "sin_coeff 8 = 0" "sin_coeff 9 = 1 / 362880" "sin_coeff 10 = 0" "sin_coeff 11 = - 1 / 39916800"
  by (simp_all add: sin_coeff_def fact_numeral)

lemma cos_coeff_values:
  "cos_coeff 0 = 1" "cos_coeff 1 = 0" "cos_coeff 2 = - 1 / 2" "cos_coeff 3 = 0"
  "cos_coeff 4 = 1 / 24" "cos_coeff 5 = 0" "cos_coeff 6 = - 1 / 720" "cos_coeff 7 = 0"
  "cos_coeff 8 = 1 / 40320" "cos_coeff 9 = 0" "cos_coeff 10 = - 1 / 3628800" "cos_coeff 11 = 0"
  by (simp_all add: cos_coeff_def fact_numeral)

lemma sin_series_12:
  "\<bar>sin x - (x - x ^ 3 / 6 + x ^ 5 / 120 - x ^ 7 / 5040 + x ^ 9 / 362880 - x ^ 11 / 39916800)\<bar>
     \<le> \<bar>x\<bar> ^ 12 / 479001600" for x :: real
proof -
  have s: "(\<Sum>m<12. sin_coeff m * x ^ m) =
      x - x ^ 3 / 6 + x ^ 5 / 120 - x ^ 7 / 5040 + x ^ 9 / 362880 - x ^ 11 / 39916800"
    unfolding sum_lessThan_12 sin_coeff_values by simp
  have f: "inverse (fact 12) = (1 :: real) / 479001600"
    by (simp add: fact_numeral)
  show ?thesis
    using Maclaurin_sin_bound [of x 12] unfolding s f by simp
qed

lemma cos_series_12:
  "\<bar>cos x - (1 - x ^ 2 / 2 + x ^ 4 / 24 - x ^ 6 / 720 + x ^ 8 / 40320 - x ^ 10 / 3628800)\<bar>
     \<le> \<bar>x\<bar> ^ 12 / 479001600" for x :: real
proof -
  have s: "(\<Sum>m<12. cos_coeff m * x ^ m) =
      1 - x ^ 2 / 2 + x ^ 4 / 24 - x ^ 6 / 720 + x ^ 8 / 40320 - x ^ 10 / 3628800"
    unfolding sum_lessThan_12 cos_coeff_values by simp
  obtain t where c: "cos x = (\<Sum>m<12. cos_coeff m * x ^ m) + (cos (t + 1 / 2 * real 12 * pi) / fact 12) * x ^ 12"
    using Maclaurin_cos_expansion [of x 12] by blast
  have "\<bar>cos x - (\<Sum>m<12. cos_coeff m * x ^ m)\<bar> = \<bar>cos (t + 1 / 2 * real 12 * pi)\<bar> * (\<bar>x\<bar> ^ 12 / fact 12)"
    unfolding c by (simp add: abs_mult power_abs)
  also have "\<dots> \<le> 1 * (\<bar>x\<bar> ^ 12 / fact 12)"
    by (intro mult_right_mono abs_cos_le_one) simp
  finally show ?thesis
    unfolding s by (simp add: fact_numeral)
qed

lemma Math_PI_close: "Math_PI - 1 / 10 ^ 8 < pi" "pi < Math_PI + 1 / 10 ^ 8"
proof -
  have l5: "1/5 - (1/5)^3/3 + (1/5)^5/5 - (1/5)^7/7 + (1/5)^9/9 - (1/5)^11/11 \<le> arctan (1/5 :: real)"
    using arctan_series_bounds(1) [of "1/5" 3] by (simp add: lessThan_Suc eval_nat_numeral)
  have u5: "arctan (1/5 :: real) \<le> 1/5 - (1/5)^3/3 + (1/5)^5/5 - (1/5)^7/7 + (1/5)^9/9 - (1/5)^11/11 + (1/5)^13/13"
    using arctan_series_bounds(2) [of "1/5" 3] by (simp add: lessThan_Suc eval_nat_numeral)
  have l239: "1/239 - (1/239)^3/3 \<le> arctan (1/239 :: real)"
    using arctan_series_bounds(1) [of "1/239" 1] by (simp add: lessThan_Suc eval_nat_numeral)
  have u239: "arctan (1/239 :: real) \<le> 1/239 - (1/239)^3/3 + (1/239)^5/5"
    using arctan_series_bounds(2) [of "1/239" 1] by (simp add: lessThan_Suc eval_nat_numeral)
  have "pi = 16 * arctan (1/5) - 4 * arctan (1/239)"
    using machin by simp
  with l5 u5 l239 u239 show "Math_PI - 1 / 10 ^ 8 < pi" "pi < Math_PI + 1 / 10 ^ 8"
    unfolding Math_PI_def by (simp_all add: power_divide)
qed

lemma sin_dLat_half:
  "round_binary64 (sin (5030569068109113 / 36028797018963968)) =
    Num (5014239404989977 / 36028797018963968)"
proof -
  define x :: real where "x = 5030569068109113 / 36028797018963968"
  define p where "p = x - x ^ 3 / 6 + x ^ 5 / 120 - x ^ 7 / 5040 + x ^ 9 / 362880 - x ^ 11 / 39916800"
  have b: "\<bar>sin x - p\<bar> \<le> \<bar>x\<bar> ^ 12 / 479001600"
    unfolding p_def by (rule sin_series_12)
  have r: "\<bar>x\<bar> ^ 12 / 479001600 < 1 / 10 ^ 18"
    unfolding x_def by (simp add: power_divide)
  have pl: "(5014239404989977 - 1 / 2) / 2 ^ 55 + 1 / 10 ^ 18 < p"
    and pu: "p < (5014239404989977 + 1 / 2) / 2 ^ 55 - 1 / 10 ^ 18"
    unfolding p_def x_def by (simp_all add: power_divide)
  have lo: "(5014239404989977 - 1 / 2) / 2 ^ 55 < sin x"
    and up: "sin x < (5014239404989977 + 1 / 2) / 2 ^ 55"
    using b r pl pu by linarith+
  have e: "binary_exponent (sin x) = - bitlen (8 - 1)"
    by (rule binary_exponent_below_1) (use lo up in simp_all)
  have "round_binary64 (sin x) = Num (of_int 5014239404989977 * 2 powi (- 3 - 52))"
  proof (rule round_binary64_nearestI)
    show "0 < sin x" using lo by simp
    show "max (binary_exponent (sin x)) (- 1022) = - 3"
      unfolding e by (simp add: bitlen_values)
    show "round_half_even (sin x / 2 powi (- 3 - 52)) = 5014239404989977"
      by (rule round_half_even_eqI) (use lo up in \<open>simp_all add: power_int_minus field_simps\<close>)
  qed simp_all
  then show ?thesis
    unfolding x_def by (simp add: power_int_minus)
qed

lemma cos_lat:
  "round_binary64 (cos (5030569068109113 / 36028797018963968)) =
    Num (4459770905381437 / 4503599627370496)"
proof -
  define x :: real where "x = 5030569068109113 / 36028797018963968"
  define p where "p = 1 - x ^ 2 / 2 + x ^ 4 / 24 - x ^ 6 / 720 + x ^ 8 / 40320 - x ^ 10 / 3628800"
  have b: "\<bar>cos x - p\<bar> \<le> \<bar>x\<bar> ^ 12 / 479001600"
    unfolding p_def by (rule cos_series_12)
  have r: "\<bar>x\<bar> ^ 12 / 479001600 < 1 / 10 ^ 18"
    unfolding x_def by (simp add: power_divide)
  have pl: "(8919541810762874 - 1 / 2) / 2 ^ 53 + 1 / 10 ^ 18 < p"
    and pu: "p < (8919541810762874 + 1 / 2) / 2 ^ 53 - 1 / 10 ^ 18"
    unfolding p_def x_def by (simp_all add: power_divide)
  have lo: "(8919541810762874 - 1 / 2) / 2 ^ 53 < cos x"
    and up: "cos x < (8919541810762874 + 1 / 2) / 2 ^ 53"
    using b r pl pu by linarith+
  have e: "binary_exponent (cos x) = - bitlen (2 - 1)"
    by (rule binary_exponent_below_1) (use lo up in simp_all)
  have "round_binary64 (cos x) = Num (of_int 8919541810762874 * 2 powi (- 1 - 52))"
  proof (rule round_binary64_nearestI)
    show "0 < cos x" using lo by simp
    show "max (binary_exponent (cos x)) (- 1022) = - 1"
      unfolding e by (simp add: bitlen_values)
    show "round_half_even (cos x / 2 powi (- 1 - 52)) = 8919541810762874"
      by (rule round_half_even_eqI) (use lo up in \<open>simp_all add: power_int_minus field_simps\<close>)
  qed simp_all
  then show ?thesis
    unfolding x_def by (simp add: power_int_minus)
qed

lemma sin_dLon_half: "round_binary64 (sin (Math_PI / 2)) = Num 1"
proof -
  define t where "t = pi / 2 - Math_PI / 2"
  define y where "y = sin (Math_PI / 2)"
  have t: "\<bar>t / 2\<bar> \<le> 1 / (4 * 10 ^ 8)"
    unfolding abs_le_iff t_def using Math_PI_close by simp
  have "y = cos t"
    unfolding y_def t_def using cos_sin_eq [of "pi / 2 - Math_PI / 2"] by simp
  then have y: "1 - y = 2 * (sin (t / 2))\<^sup>2"
    using cos_double_sin [of "t / 2"] by simp
  have "\<bar>sin (t / 2)\<bar> \<le> \<bar>t / 2\<bar>"
    by (rule abs_sin_x_le_abs_x)
  then have "\<bar>sin (t / 2)\<bar> \<le> 1 / (4 * 10 ^ 8)"
    using t by (rule order_trans)
  then have "(sin (t / 2))\<^sup>2 \<le> (1 / (4 * 10 ^ 8))\<^sup>2"
    using abs_le_square_iff [of "sin (t / 2)" "1 / (4 * 10 ^ 8)"] by simp
  with y have lo: "1 - 2 / (4 * 10 ^ 8)\<^sup>2 \<le> y"
    by (simp add: power_divide)
  have up: "y \<le> 1"
    unfolding y_def by simp
  show ?thesis
  proof (cases "y = 1")
    case True
    have "round_binary64 1 = Num 1"
      by code_simp
    with True show ?thesis
      unfolding y_def by simp
  next
    case False
    with up have lt: "y < 1" by simp
    have e: "binary_exponent y = - bitlen (2 - 1)"
      by (rule binary_exponent_below_1) (use lo lt in simp_all)
    have "round_binary64 y = Num (of_int 9007199254740992 * 2 powi (- 1 - 52))"
    proof (rule round_binary64_nearestI)
      show "0 < y" using lo by simp
      show "max (binary_exponent y) (- 1022) = - 1"
        unfolding e by (simp add: bitlen_values)
      show "round_half_even (y / 2 powi (- 1 - 52)) = 9007199254740992"
        by (rule round_half_even_eqI) (use lo lt in \<open>simp_all add: power_int_minus field_simps\<close>)
    qed simp_all
    then show ?thesis
      unfolding y_def by (simp add: power_int_minus)
  qed
qed

lemma example_sin:
  "Math_sin example_math (Num (- (5030569068109113 / 36028797018963968))) = Num (- (5014239404989977 / 36028797018963968))"
  "Math_sin example_math (Num (5030569068109113 / 36028797018963968)) = Num (5014239404989977 / 36028797018963968)"
  "Math_sin example_math (Num (884279719003555 / 562949953421312)) = Num 1"
  "Math_sin example_math (Num (- (884279719003555 / 562949953421312))) = Num (- 1)"
proof -
  have h: "884279719003555 / 562949953421312 = Math_PI / 2" and nz: "Math_PI \<noteq> 0"
    by (simp_all add: Math_PI_def)
  show "Math_sin example_math (Num (5030569068109113 / 36028797018963968)) = Num (5014239404989977 / 36028797018963968)"
    by (simp add: example_math_def nearest_binary64_def sin_dLat_half)
  show "Math_sin example_math (Num (- (5030569068109113 / 36028797018963968))) = Num (- (5014239404989977 / 36028797018963968))"
    by (simp add: example_math_def nearest_binary64_def round_binary64_minus sin_dLat_half)
  show "Math_sin example_math (Num (884279719003555 / 562949953421312)) = Num 1"
    unfolding h using nz by (simp add: example_math_def nearest_binary64_def sin_dLon_half)
  show "Math_sin example_math (Num (- (884279719003555 / 562949953421312))) = Num (- 1)"
    unfolding h using nz by (simp add: example_math_def nearest_binary64_def round_binary64_minus sin_dLon_half)
qed

lemma example_cos:
  "Math_cos example_math (Num (5030569068109113 / 36028797018963968)) = Num (4459770905381437 / 4503599627370496)"
  "Math_cos example_math (Num (- (5030569068109113 / 36028797018963968))) = Num (4459770905381437 / 4503599627370496)"
  by (simp_all add: example_math_def nearest_binary64_def cos_lat)

lemmas b64_steps =
  b64_sub_lat b64_sub_lat_back b64_sub_lon b64_sub_lon_back
  b64_toRadians_m16 b64_toRadians_p16 b64_toRadians_p180 b64_toRadians_m180
  b64_toRadians_p8 b64_toRadians_m8 b64_half_m16 b64_half_p16 b64_half_p180 b64_half_m180
  example_sin example_cos b64_sin_sq b64_sin_sq_back b64_cos_cos b64_times_one
  b64_times_minus_one b64_times_minus_one_twice b64_a b64_one_minus_a

text \<open>
  From a point to itself the machine computes 0 as well, on every platform whose cosine
  stays within 1 and whose square root of 1 is positive, when the latitude in radians is
  finite: both sines are taken at 0.
\<close>

lemma haversine_binary64_same:
  assumes "toRadians_binary64 (Num p) = Num r" and "\<bar>m_cos M r\<bar> \<le> 1" and "0 < m_sqrt M 1"
  shows "haversineDistanceMeters_binary64 M (Num p) (Num q) (Num p) (Num q) = Num 0"
proof -
  have z: "toRadians_binary64 (fl_sub (Num x) (Num x)) = Num 0" for x
    by (simp add: toRadians_binary64_def fl_sub_def round_binary64_0)
  obtain c where c: "Math_cos M (toRadians_binary64 (Num p)) = Num c" "\<bar>c\<bar> \<le> 1"
    unfolding assms(1) using assms(2) by (cases "r = 0") simp_all
  have "\<bar>c\<bar> * \<bar>c\<bar> \<le> 1"
    using c(2) by (intro mult_le_one) simp_all
  then have "\<bar>c * c\<bar> \<le> 1"
    unfolding abs_mult .
  then obtain v where v: "round_binary64 (c * c) = Num v"
    using round_binary64_small by blast
  have a: "haversine_a_binary64 M (Num p) (Num q) (Num p) (Num q) = Num 0"
    unfolding haversine_a_binary64_def Let_def z c by (simp add: round_binary64_0 v)
  have one: "round_binary64 1 = Num 1"
    by code_simp
  show ?thesis
    unfolding haversineDistanceMeters_binary64_def Let_def a using assms(3)
    by (simp add: fl_sub_def round_binary64_0 one)
qed

lemma haversine_a_antipodal: "haversine_a 8 (- 180) (- 8) 0 = 1"
proof -
  define t where "t = toRadians 8"
  have 1: "toRadians (- 8 - 8) / 2 = - t" "toRadians (0 - - 180) / 2 = pi / 2"
    "toRadians (- 8) = - t"
    by (simp_all add: t_def toRadians_def)
  have "haversine_a 8 (- 180) (- 8) 0 = sin t * sin t + cos t * cos t"
    unfolding haversine_a_def Let_def 1 t_def [symmetric] by simp
  also have "\<dots> = 1"
    using sin_cos_squared_add [of t] by (simp add: power2_eq_square)
  finally show ?thesis .
qed

lemma haversine_a_binary64_antipodal:
  "haversine_a_binary64 example_math (Num 8) (Num (- 180)) (Num (- 8)) (Num 0) =
     Num (4503599627370497 / 4503599627370496)"
  "haversine_a_binary64 example_math (Num (- 8)) (Num 0) (Num 8) (Num (- 180)) =
     Num (4503599627370497 / 4503599627370496)"
  by (simp_all only: haversine_a_binary64_def Let_def b64_steps)

text \<open>
  C6, the code at the points (8, -180) and (-8, 0), which lie opposite each other on the
  globe. In exact arithmetic \<open>a\<close> is 1 there and the distance is half the
  circumference. As the machine evaluates the formula, with the functions of \<open>Math\<close>
  rounded to nearest, the two squares round to a sum of
  \<open>1 + 2\<^sup>-\<^sup>5\<^sup>2\<close>, \<open>1 - a\<close> is negative, its square root is \<open>NaN\<close>, and so is the
  distance, in either direction: the results are not equal to each other, being \<open>NaN\<close>,
  and are no distance.
\<close>

theorem haversine_antipodal_NaN:
  "haversine_a 8 (- 180) (- 8) 0 = 1 \<and>
   haversineDistanceMeters 8 (- 180) (- 8) 0 = 6371000 * pi \<and>
   haversine_a_binary64 example_math (Num 8) (Num (- 180)) (Num (- 8)) (Num 0) =
     Num (1 + 1 / 2 ^ 52) \<and>
   haversineDistanceMeters_binary64 example_math (Num 8) (Num (- 180)) (Num (- 8)) (Num 0) = NaN \<and>
   haversineDistanceMeters_binary64 example_math (Num (- 8)) (Num 0) (Num 8) (Num (- 180)) = NaN"
proof (intro conjI)
  show "haversine_a 8 (- 180) (- 8) 0 = 1"
    by (rule haversine_a_antipodal)
  show "haversineDistanceMeters 8 (- 180) (- 8) 0 = 6371000 * pi"
    by (simp add: haversineDistanceMeters_def haversine_a_antipodal atan2_def)
  show "haversine_a_binary64 example_math (Num 8) (Num (- 180)) (Num (- 8)) (Num 0) =
     Num (1 + 1 / 2 ^ 52)"
    by (simp add: haversine_a_binary64_antipodal)
  show "haversineDistanceMeters_binary64 example_math (Num 8) (Num (- 180)) (Num (- 8)) (Num 0) = NaN"
    by (simp only: haversineDistanceMeters_binary64_def Let_def haversine_a_binary64_antipodal
        b64_one_minus_a) simp
  show "haversineDistanceMeters_binary64 example_math (Num (- 8)) (Num 0) (Num 8) (Num (- 180)) = NaN"
    by (simp only: haversineDistanceMeters_binary64_def Let_def haversine_a_binary64_antipodal
        b64_one_minus_a) simp
qed


section \<open>Properties of the application\<close>

lemma reachable_run:
  "reachable env s \<Longrightarrow> possible env s evs \<Longrightarrow> reachable env (run env s evs)"
  by (induction evs arbitrary: s) (auto intro: reachable.stepped)

lemma handle_frame:
  "handle env s ev = (s', deps) \<Longrightarrow>
     routeCoords s' = routeCoords s \<and>
     (UserLocation \<notin> deps \<longrightarrow> userLocation s' = userLocation s) \<and>
     (Stations \<notin> deps \<longrightarrow> stations s' = stations s)"
  by (cases ev)
    (auto simp: getCurrentLocation_def onPosition_def onPositionError_def
      setManualLocationAndFetch_def load_finish_def Let_def
      split: if_splits option.splits sum.splits prod.splits bool.splits)

lemma route_ok_same:
  assumes "routeCoords s' = routeCoords s" "userLocation s' = userLocation s"
    "stations s' = stations s"
  shows "route_ok s' = route_ok s"
  unfolding route_ok_def assms ..

lemma route_ok_route_effect: "route_ok (route_effect s)"
  by (simp add: route_ok_def route_effect_def split: option.splits list.splits)

lemma load_start_frame:
  "routeCoords (load_start s) = routeCoords s" "userLocation (load_start s) = userLocation s"
  "stations (load_start s) = stations s"
  by (simp_all add: load_start_def split: option.splits)

lemma route_ok_step: "route_ok s \<Longrightarrow> route_ok (step env s ev)"
proof -
  assume ok: "route_ok s"
  obtain s' deps where h: "handle env s ev = (s', deps)" by (cases "handle env s ev")
  note fr = handle_frame [OF h]
  show ?thesis
  proof (cases "UserLocation \<in> deps \<or> Stations \<in> deps")
    case True
    then show ?thesis
      by (simp add: step_def h run_effects_def Let_def route_ok_route_effect)
  next
    case False
    with fr have e: "routeCoords s' = routeCoords s" "userLocation s' = userLocation s"
      "stations s' = stations s" by auto
    from False have "step env s ev = s'"
      by (simp add: step_def h run_effects_def Let_def)
    with ok route_ok_same [OF e] show ?thesis
      by simp
  qed
qed

lemma route_ok_reachable: "reachable env s \<Longrightarrow> route_ok s"
  by (induction rule: reachable.induct) (simp_all add: mount_def route_ok_route_effect route_ok_step)

lemmas app_defs =
  step_def run_effects_def getCurrentLocation_def onPosition_def onPositionError_def
  setManualLocationAndFetch_def load_start_def load_finish_def route_effect_def
  mount_def initial_def Let_def

text \<open>
  C8: in every state the component can reach, the route overlay is the two-point path
  from the user's location to the first station of the ranking when there is a location
  and at least one station, and none otherwise: the effect has run after every change of
  either.
\<close>

theorem routeCoords_nearest_station:
  assumes "reachable env s"
  shows "(\<forall>u nearest rest. userLocation s = Some u \<and> stations s = nearest # rest \<longrightarrow>
            routeCoords s = Some [(Some (lat u), Some (lon u)), (lat nearest, lon nearest)]) \<and>
         (userLocation s = None \<or> stations s = [] \<longrightarrow> routeCoords s = None)"
  using route_ok_reachable [OF assms]
  by (auto simp: route_ok_def split: option.splits list.splits)

lemma locate_and_load_possible: "possible example_env (mount example_env) locate_and_load"
  by (simp add: locate_and_load_def example_env_def app_defs)

lemma locate_and_load_state:
  "userLocation (run example_env (mount example_env) locate_and_load) = Some \<lparr>lat = Num 12, lon = Num 77\<rparr>"
  "map st_id (stations (run example_env (mount example_env) locate_and_load)) = [10]"
  "map lat (stations (run example_env (mount example_env) locate_and_load)) = [Some (Num 13)]"
  "map lon (stations (run example_env (mount example_env) locate_and_load)) = [Some (Num 78)]"
  by (simp_all add: locate_and_load_def example_env_def app_defs ok_response_def
      fetchStations_def element_to_station_def way_10_def no_tags_def
      sortStationsByDistance_def array_sort_def withDistance_def)

theorem routeCoords_nearest_station_witness:
  "reachable example_env (run example_env (mount example_env) locate_and_load) \<and>
   routeCoords (run example_env (mount example_env) locate_and_load) =
     Some [(Some (Num 12), Some (Num 77)), (Some (Num 13), Some (Num 78))] \<and>
   reachable example_env (mount example_env) \<and>
   routeCoords (mount example_env) = None"
proof -
  let ?s = "run example_env (mount example_env) locate_and_load"
  have r: "reachable example_env ?s"
    using reachable_run [OF reachable.mounted locate_and_load_possible] .
  obtain n rest where st: "stations ?s = n # rest"
    using locate_and_load_state(2) by (cases "stations ?s") auto
  with locate_and_load_state have n: "lat n = Some (Num 13)" "lon n = Some (Num 78)"
    by simp_all
  from routeCoords_nearest_station [OF r] locate_and_load_state(1) st
  have "routeCoords ?s = Some [(Some (lat \<lparr>lat = Num 12, lon = Num 77\<rparr>),
      Some (lon \<lparr>lat = Num 12, lon = Num 77\<rparr>)), (lat n, lon n)]"
    by blast
  with n have 1: "routeCoords ?s = Some [(Some (Num 12), Some (Num 77)), (Some (Num 13), Some (Num 78))]"
    by simp
  have "userLocation (mount example_env) = None"
    by (simp add: example_env_def app_defs)
  with routeCoords_nearest_station [OF reachable.mounted, of example_env]
  have 2: "routeCoords (mount example_env) = None" by blast
  from r 1 2 reachable.mounted show ?thesis by blast
qed

lemma rejects_iff:
  "(isNaN la \<or> isNaN lo \<or> js_lt la (Num (- 90)) \<or> js_lt (Num 90) la \<or>
     js_lt lo (Num (- 180)) \<or> js_lt (Num 180) lo) \<longleftrightarrow>
   \<not> (in_interval (- 90) 90 la \<and> in_interval (- 180) 180 lo)"
  by (cases la; cases lo) auto

lemma setManualLocationAndFetch_invalid:
  "\<not> valid_manual env (manualLocation s) \<Longrightarrow>
   setManualLocationAndFetch env s = (s\<lparr>alerts := alerts s @ [invalid_alert]\<rparr>, False)"
  unfolding setManualLocationAndFetch_def Let_def valid_manual_def rejects_iff invalid_alert_def
  by simp

lemma setManualLocationAndFetch_valid:
  "valid_manual env (manualLocation s) \<Longrightarrow>
   setManualLocationAndFetch env s =
     (s\<lparr>userLocation := Some \<lparr>lat = parseFloat env (lat (manualLocation s)),
                                 lon = parseFloat env (lon (manualLocation s))\<rparr>,
        showManualLocation := False, geoError := None\<rparr>, True)"
  unfolding setManualLocationAndFetch_def Let_def valid_manual_def rejects_iff
  by simp

text \<open>
  C4: a manual submission whose latitude is not a number in \<open>[-90, 90]\<close> or whose
  longitude is not a number in \<open>[-180, 180]\<close> changes nothing but the alert it shows: the
  user location stays, the manual form stays as it was, no fetch is started and nothing
  is loading that was not. A latitude of 200 is such a submission.
\<close>

theorem manual_submission_rejected:
  assumes "\<not> valid_manual env (manualLocation s)"
  shows "step env s ClickFindStations = s\<lparr>alerts := alerts s @ [invalid_alert]\<rparr> \<and>
     userLocation (step env s ClickFindStations) = userLocation s \<and>
     showManualLocation (step env s ClickFindStations) = showManualLocation s \<and>
     fetchRequests (step env s ClickFindStations) = fetchRequests s \<and>
     loading (step env s ClickFindStations) = loading s \<and>
     stations (step env s ClickFindStations) = stations s \<and>
     (\<forall>env' s'. parseFloat env' (lat (manualLocation s')) = Num 200 \<longrightarrow>
        \<not> valid_manual env' (manualLocation s'))"
proof -
  have "step env s ClickFindStations = s\<lparr>alerts := alerts s @ [invalid_alert]\<rparr>"
    using assms by (simp add: step_def setManualLocationAndFetch_invalid run_effects_def)
  then show ?thesis
    by (simp add: valid_manual_def)
qed

lemma example_parseFloat:
  "parseFloat example_env ''200'' = Num 200" "parseFloat example_env ''10'' = Num 10"
  "parseFloat example_env ''20'' = Num 20" "parseFloat example_env [] = NaN"
  by (simp_all add: example_env_def)

lemma open_form_200_possible:
  "possible example_env (mount example_env)
     [GeoFailure 0 1, ClickEnterManually, ChangeLat ''200'', ChangeLon ''20'']"
  by (simp add: example_env_def app_defs)

theorem manual_submission_rejected_witness:
  "\<not> valid_manual example_env (manualLocation (run example_env (mount example_env)
       [GeoFailure 0 1, ClickEnterManually, ChangeLat ''200'', ChangeLon ''20''])) \<and>
   showManualLocation (run example_env (mount example_env)
       [GeoFailure 0 1, ClickEnterManually, ChangeLat ''200'', ChangeLon ''20'', ClickFindStations]) \<and>
   userLocation (run example_env (mount example_env)
       [GeoFailure 0 1, ClickEnterManually, ChangeLat ''200'', ChangeLon ''20'', ClickFindStations]) = None \<and>
   fetchRequests (run example_env (mount example_env)
       [GeoFailure 0 1, ClickEnterManually, ChangeLat ''200'', ChangeLon ''20'', ClickFindStations]) = [] \<and>
   alerts (run example_env (mount example_env)
       [GeoFailure 0 1, ClickEnterManually, ChangeLat ''200'', ChangeLon ''20'', ClickFindStations]) =
     [invalid_alert]"
proof -
  define s0 where "s0 = run example_env (mount example_env)
       [GeoFailure 0 1, ClickEnterManually, ChangeLat ''200'', ChangeLon ''20'']"
  have before: "manualLocation s0 = \<lparr>lat = ''200'', lon = ''20''\<rparr>" "showManualLocation s0"
    "userLocation s0 = None" "fetchRequests s0 = []" "alerts s0 = []"
    unfolding s0_def by (simp_all add: example_env_def app_defs)
  have inv: "\<not> valid_manual example_env (manualLocation s0)"
    by (simp add: before valid_manual_def example_parseFloat)
  have split: "run example_env (mount example_env)
       [GeoFailure 0 1, ClickEnterManually, ChangeLat ''200'', ChangeLon ''20'', ClickFindStations] =
     step example_env s0 ClickFindStations"
    unfolding s0_def by simp
  from manual_submission_rejected [OF inv]
  have "step example_env s0 ClickFindStations = s0\<lparr>alerts := alerts s0 @ [invalid_alert]\<rparr>"
    by (rule conjunct1)
  then have after: "showManualLocation (step example_env s0 ClickFindStations)"
    "userLocation (step example_env s0 ClickFindStations) = None"
    "fetchRequests (step example_env s0 ClickFindStations) = []"
    "alerts (step example_env s0 ClickFindStations) = [invalid_alert]"
    by (simp_all add: before)
  from inv after show ?thesis
    unfolding split unfolding s0_def by blast
qed

lemma geo_in_flight_step:
  assumes "geoRequests s = [] \<or> (isLocating s \<and> length (geoRequests s) = 1)" "enabled s ev"
  shows "geoRequests (step env s ev) = [] \<or>
         (isLocating (step env s ev) \<and> length (geoRequests (step env s ev)) = 1)"
proof -
  obtain s' deps where h: "handle env s ev = (s', deps)" by (cases "handle env s ev")
  have eff: "geoRequests (run_effects deps s') = geoRequests s'"
    "isLocating (run_effects deps s') = isLocating s'"
    by (simp_all add: run_effects_def load_start_def route_effect_def Let_def
        split: option.splits list.splits)
  have "geoRequests s' = [] \<or> (isLocating s' \<and> length (geoRequests s') = 1)"
    using assms h
    by (cases ev)
      (auto simp: getCurrentLocation_def onPosition_def onPositionError_def
        setManualLocationAndFetch_def load_finish_def Let_def length_Suc_conv
        split: if_splits option.splits sum.splits prod.splits bool.splits)
  then show ?thesis
    by (simp add: step_def h eff)
qed

lemma geo_in_flight_reachable:
  "reachable env s \<Longrightarrow> geoRequests s = [] \<or> (isLocating s \<and> length (geoRequests s) = 1)"
proof (induction rule: reachable.induct)
  case mounted
  show ?case by (simp add: app_defs split: option.splits)
next
  case (stepped s ev)
  then show ?case by (intro geo_in_flight_step) auto
qed

text \<open>
  C5 (as stated: the response of a superseded request is discarded, and no queued
  resolution overwrites a more recent one). The success callback sets the location
  without any check. In the run below, all of whose events the interface allows, the
  user resolves the location by hand to (10, 20) while a device request is in flight, and
  the answer of that request then replaces it by (50, 60). Called twice in a row,
  \<open>getCurrentLocation\<close> has two requests in flight, and the answer of the first, arriving
  after the answer of the second, replaces it.
\<close>

theorem superseded_response_counterexample:
  "possible example_env (mount example_env) manual_then_device \<and>
   userLocation (run example_env (mount example_env) (butlast manual_then_device)) =
     Some \<lparr>lat = Num 10, lon = Num 20\<rparr> \<and>
   userLocation (run example_env (mount example_env) manual_then_device) =
     Some \<lparr>lat = Num 50, lon = Num 60\<rparr> \<and>
   geoRequests (getCurrentLocation example_env (mount example_env)) = [0, 1] \<and>
   userLocation (run example_env (getCurrentLocation example_env (mount example_env))
      [GeoSuccess 1 (Num 2) (Num 2), GeoSuccess 0 (Num 1) (Num 1)]) =
     Some \<lparr>lat = Num 1, lon = Num 1\<rparr>"
  by (simp add: manual_then_device_def example_env_def app_defs)

text \<open>
  C5 (amended): a device-location answer is applied whenever it arrives: after it the
  user location is the answer's coordinate, whatever has happened since its request was
  made. What the interface does ensure is that at most one device request is in flight:
  the locate buttons are disabled while one is, so that in the runs the interface allows
  no device request is superseded by another.
\<close>

theorem device_answer_always_applied:
  "userLocation (step env s (GeoSuccess r latitude longitude)) =
     Some \<lparr>lat = latitude, lon = longitude\<rparr> \<and>
   (reachable env s \<longrightarrow>
      length (geoRequests s) \<le> 1 \<and> (geoRequests s \<noteq> [] \<longrightarrow> isLocating s) \<and>
      (isLocating s \<longrightarrow> \<not> enabled s ClickLocate \<and> \<not> enabled s ClickTryAgain))"
proof (intro conjI impI)
  show "userLocation (step env s (GeoSuccess r latitude longitude)) =
     Some \<lparr>lat = latitude, lon = longitude\<rparr>"
    by (simp add: step_def run_effects_def onPosition_def load_start_def route_effect_def
        Let_def split: list.splits)
next
  assume "reachable env s"
  from geo_in_flight_reachable [OF this]
  show "length (geoRequests s) \<le> 1" by auto
next
  assume "reachable env s" "geoRequests s \<noteq> []"
  with geo_in_flight_reachable [of env s] show "isLocating s" by auto
next
  assume "isLocating s"
  then show "\<not> enabled s ClickLocate" "\<not> enabled s ClickTryAgain" by simp_all
qed

theorem device_answer_always_applied_witness:
  "reachable example_env (mount example_env) \<and>
   geoRequests (mount example_env) = [0] \<and> isLocating (mount example_env) \<and>
   \<not> enabled (mount example_env) ClickLocate \<and> \<not> enabled (mount example_env) ClickTryAgain \<and>
   userLocation (step example_env (mount example_env) (GeoSuccess 0 (Num 12) (Num 77))) =
     Some \<lparr>lat = Num 12, lon = Num 77\<rparr>"
proof -
  have g: "geoRequests (mount example_env) = [0]"
    by (simp add: example_env_def app_defs)
  from device_answer_always_applied [of example_env "mount example_env" 0 "Num 12" "Num 77"]
    reachable.mounted [of example_env] g
  show ?thesis by simp
qed


section \<open>Properties of \<open>formatDistance\<close>\<close>

declare show_nat.simps [simp del]

lemma show_nat_small: "n < 10 \<Longrightarrow> show_nat n = [digit_char n]"
  by (subst show_nat.simps) simp

lemma show_nat_step: "\<not> n < 10 \<Longrightarrow> show_nat n = show_nat (n div 10) @ [digit_char (n mod 10)]"
  by (subst show_nat.simps) simp

lemma show_nat_not_Nil: "show_nat n \<noteq> []"
  by (subst show_nat.simps) simp

lemma digit_char_0: "digit_char 0 = CHR ''0''"
  by (simp add: digit_char_def)

lemma fixed2_text_digits:
  "fixed2_text n =
     show_nat (n div 100) @ ''.'' @ [digit_char (n div 10 mod 10), digit_char (n mod 10)]"
proof -
  consider "n < 10" | "10 \<le> n" "n < 100" | "100 \<le> n" by linarith
  then show ?thesis
  proof cases
    case 1
    then have "show_nat n = [digit_char n]" "n div 100 = 0" "n div 10 = 0" "n mod 10 = n"
      by (simp_all add: show_nat_small)
    then show ?thesis
      by (simp add: fixed2_text_def show_nat_small digit_char_0 numeral_3_eq_3)
  next
    case 2
    then have "n div 10 < 10" "n div 100 = 0" by simp_all
    with 2 have "show_nat n = [digit_char (n div 10), digit_char (n mod 10)]"
      by (simp add: show_nat_step show_nat_small)
    with \<open>n div 10 < 10\<close> \<open>n div 100 = 0\<close> show ?thesis
      by (simp add: fixed2_text_def show_nat_small digit_char_0)
  next
    case 3
    then have a: "\<not> n < 10" "\<not> n div 10 < 10" by simp_all
    have "n div 10 div 10 = n div 100" by (simp add: div_mult2_eq)
    with a have s: "show_nat n =
        show_nat (n div 100) @ [digit_char (n div 10 mod 10), digit_char (n mod 10)]"
      by (simp add: show_nat_step [of n] show_nat_step [of "n div 10"])
    have "length (show_nat (n div 100)) \<noteq> 0"
      using show_nat_not_Nil by simp
    then have "\<not> length (show_nat n) \<le> 2"
      unfolding s by simp
    then have "fixed2_text n = take (length (show_nat n) - 2) (show_nat n) @ ''.'' @
        drop (length (show_nat n) - 2) (show_nat n)"
      by (simp add: fixed2_text_def Let_def)
    then show ?thesis unfolding s by simp
  qed
qed

lemma round_half_even_nonneg: "0 \<le> y \<Longrightarrow> 0 \<le> round_half_even y"
  by (simp add: round_half_even_def Let_def)

lemma round_binary64_nonneg:
  assumes "0 \<le> x" "round_binary64 x = Num y"
  shows "0 \<le> y"
proof (cases "x = 0")
  case True
  with assms show ?thesis by (simp add: round_binary64_def)
next
  case False
  define q :: real where "q = 2 powi (max (binary_exponent \<bar>x\<bar>) (- 1022) - 52)"
  have q: "0 < q" by (simp add: q_def)
  then have "0 \<le> round_half_even (\<bar>x\<bar> / q)"
    by (intro round_half_even_nonneg) simp
  then have "0 \<le> sgn x * (of_int (round_half_even (\<bar>x\<bar> / q)) * q)"
    using q assms(1) False by (simp add: sgn_if)
  with assms(2) False show ?thesis
    by (simp add: round_binary64_def Let_def q_def split: if_splits)
qed

lemma toFixed2_nonneg:
  assumes "0 \<le> y" "y < 10 ^ 21"
  shows "toFixed2 other (Num y) = fixed2_text (nat \<lfloor>y * 100 + 1 / 2\<rfloor>)"
  using assms by (simp add: toFixed2_def)

lemma formatDistance_below_1000:
  "x < 1000 \<Longrightarrow>
   formatDistance other (Some (Num x)) = number_toString other (Num (of_int \<lfloor>x + 1 / 2\<rfloor>)) @ '' m''"
  by (simp add: formatDistance_def)

lemma formatDistance_from_1000:
  assumes "1000 \<le> x" "divide_by 1000 (Num x) = Num y" "y < 10 ^ 21"
  shows "formatDistance other (Some (Num x)) = fixed2_text (nat \<lfloor>y * 100 + 1 / 2\<rfloor>) @ '' km''"
proof -
  have "0 \<le> x / 1000" using assms(1) by simp
  with assms(2) have "0 \<le> y"
    using round_binary64_nonneg [of "x / 1000" y] by simp
  with assms show ?thesis
    by (simp add: formatDistance_def toFixed2_nonneg del: divide_by.simps)
qed

lemma round_binary64_3_2: "round_binary64 (3 / 2) = Num (3 / 2)"
  by code_simp

text \<open>
  C2 (as stated: outside \<open>0 \<le> meters < 1000\<close>, and not null or \<open>NaN\<close>, the result is
  kilometres with two decimals). The test of the code is \<open>meters < 1000\<close> alone, so a
  negative distance is written in metres; and \<open>toFixed\<close> writes no decimals for an
  infinite value.
\<close>

theorem formatDistance_counterexample:
  "(\<forall>other. formatDistance other (Some (Num (- 5))) = ''-5 m'') \<and>
   (\<forall>other. formatDistance other (Some PosInf) = ''Infinity km'')"
  by (simp add: formatDistance_def toFixed2_def show_int_def show_nat_small digit_char_def)

text \<open>
  C2 (amended): the result is empty for null and for \<open>NaN\<close>. For a finite distance below
  1000 whose rounded value is above \<open>-2\<^sup>5\<^sup>3\<close> it is the distance rounded to the nearest
  integer, in all its decimal digits, and \<open>m\<close>, negative distances included. For a finite
  distance of 1000 or more whose quotient by 1000 (as the machine divides) is below
  \<open>10\<^sup>2\<^sup>1\<close>, it is that quotient to the nearest hundredth, written with its integer
  digits, a point and exactly two decimals, and \<open>km\<close>. So 500 gives \<open>500 m\<close> and 1500
  gives \<open>1.50 km\<close>.
\<close>

theorem formatDistance_cases:
  "formatDistance other None = [] \<and>
   formatDistance other (Some NaN) = [] \<and>
   (x < 1000 \<and> - (2 ^ 53) < \<lfloor>x + 1 / 2\<rfloor> \<longrightarrow>
      formatDistance other (Some (Num x)) = show_int \<lfloor>x + 1 / 2\<rfloor> @ '' m'') \<and>
   (1000 \<le> x \<and> divide_by 1000 (Num x) = Num y \<and> y < 10 ^ 21 \<longrightarrow>
      0 \<le> y \<and>
      formatDistance other (Some (Num x)) =
        show_nat (nat \<lfloor>y * 100 + 1 / 2\<rfloor> div 100) @ ''.'' @
        [digit_char (nat \<lfloor>y * 100 + 1 / 2\<rfloor> div 10 mod 10),
         digit_char (nat \<lfloor>y * 100 + 1 / 2\<rfloor> mod 10)] @ '' km'') \<and>
   formatDistance other (Some (Num 500)) = ''500 m'' \<and>
   formatDistance other (Some (Num 1500)) = ''1.50 km''"
proof (intro conjI impI)
  show "formatDistance other None = []" "formatDistance other (Some NaN) = []"
    by (simp_all add: formatDistance_def)
next
  assume a: "x < 1000 \<and> - (2 ^ 53) < \<lfloor>x + 1 / 2\<rfloor>"
  define z where "z = \<lfloor>x + 1 / 2\<rfloor>"
  have u: "z \<le> 1000" unfolding z_def using a by linarith
  have l: "- (2 ^ 53) < z" unfolding z_def using a by (rule conjunct2)
  from l u have "\<bar>z\<bar> < (2 :: int) ^ 53"
    by simp
  then have "real_of_int \<bar>z\<bar> < real_of_int (2 ^ 53)"
    by (simp only: of_int_less_iff)
  then have "\<bar>real_of_int z\<bar> < 2 ^ 53"
    by simp
  then have "number_toString other (Num (of_int z)) = show_int z"
    by simp
  with a show "formatDistance other (Some (Num x)) = show_int \<lfloor>x + 1 / 2\<rfloor> @ '' m''"
    unfolding z_def by (simp add: formatDistance_below_1000)
next
  assume a: "1000 \<le> x \<and> divide_by 1000 (Num x) = Num y \<and> y < 10 ^ 21"
  then have "0 \<le> x / 1000" by simp
  with a show "0 \<le> y"
    using round_binary64_nonneg [of "x / 1000" y] by simp
  from a show "formatDistance other (Some (Num x)) =
        show_nat (nat \<lfloor>y * 100 + 1 / 2\<rfloor> div 100) @ ''.'' @
        [digit_char (nat \<lfloor>y * 100 + 1 / 2\<rfloor> div 10 mod 10),
         digit_char (nat \<lfloor>y * 100 + 1 / 2\<rfloor> mod 10)] @ '' km''"
    using formatDistance_from_1000 [of x y other] by (simp add: fixed2_text_digits)
next
  show "formatDistance other (Some (Num 500)) = ''500 m''"
    by (simp add: formatDistance_def show_int_def show_nat_small show_nat_step digit_char_def)
next
  have "formatDistance other (Some (Num 1500)) = fixed2_text (nat \<lfloor>(3 / 2 :: real) * 100 + 1 / 2\<rfloor>) @ '' km''"
    by (intro formatDistance_from_1000) (simp_all add: round_binary64_3_2)
  also have "nat \<lfloor>(3 / 2 :: real) * 100 + 1 / 2\<rfloor> = 150"
    by simp
  finally show "formatDistance other (Some (Num 1500)) = ''1.50 km''"
    by (simp add: fixed2_text_digits show_nat_small digit_char_def)
qed

lemma divide_by_1005:
  "divide_by 1000 (Num 1005) = Num (1131529406376837 / 1125899906842624)"
  by code_simp

theorem formatDistance_cases_witness:
  "(- 5 :: real) < 1000 \<and> - (2 ^ 53) < \<lfloor>(- 5 :: real) + 1 / 2\<rfloor> \<and>
   (\<forall>other. formatDistance other (Some (Num (- 5))) = ''-5 m'') \<and>
   (1000 :: real) \<le> 1005 \<and>
   divide_by 1000 (Num 1005) = Num (1131529406376837 / 1125899906842624) \<and>
   (1131529406376837 / 1125899906842624 :: real) < 10 ^ 21 \<and>
   (\<forall>other. formatDistance other (Some (Num 1005)) = ''1.00 km'')"
proof -
  have f: "\<lfloor>(- 5 :: real) + 1 / 2\<rfloor> = - 5" by linarith
  have h1: "(- 5 :: real) < 1000 \<and> - (2 ^ 53) < \<lfloor>(- 5 :: real) + 1 / 2\<rfloor>"
    unfolding f by simp
  have h2: "(1000 :: real) \<le> 1005 \<and>
      divide_by 1000 (Num 1005) = Num (1131529406376837 / 1125899906842624) \<and>
      (1131529406376837 / 1125899906842624 :: real) < 10 ^ 21"
    using divide_by_1005 by simp
  have n: "nat \<lfloor>(1131529406376837 / 1125899906842624 :: real) * 100 + 1 / 2\<rfloor> = 100"
    by simp
  have 1: "formatDistance other (Some (Num (- 5))) = ''-5 m''" for other
  proof -
    from formatDistance_cases [of other "- 5" 0] h1
    have "formatDistance other (Some (Num (- 5))) = show_int \<lfloor>(- 5 :: real) + 1 / 2\<rfloor> @ '' m''"
      by blast
    then show ?thesis
      unfolding f by (simp add: show_int_def show_nat_small digit_char_def)
  qed
  have 2: "formatDistance other (Some (Num 1005)) = ''1.00 km''" for other
  proof -
    from formatDistance_cases [of other 1005 "1131529406376837 / 1125899906842624"] h2
    have "formatDistance other (Some (Num 1005)) =
        show_nat (nat \<lfloor>(1131529406376837 / 1125899906842624 :: real) * 100 + 1 / 2\<rfloor> div 100) @ ''.'' @
        [digit_char (nat \<lfloor>(1131529406376837 / 1125899906842624 :: real) * 100 + 1 / 2\<rfloor> div 10 mod 10),
         digit_char (nat \<lfloor>(1131529406376837 / 1125899906842624 :: real) * 100 + 1 / 2\<rfloor> mod 10)] @ '' km''"
      by blast
    then show ?thesis
      unfolding n by (simp add: show_nat_small digit_char_def)
  qed
  from h1 h2 1 2 show ?thesis by blast
qed

end
